theory Spec2Isabelle
  imports Complex_Main "HOL-Library.Log_Nat" "HOL-Library.AList"
begin

section \<open>Python values and exceptions\<close>

text \<open>
  The exceptions the modelled part of \<^verbatim>\<open>picosdk.py\<close> can raise. \<open>PicoSDKException\<close> is the
  library's own exception class; the others are Python's built-in ones, raised by a dictionary
  or list lookup, by arithmetic or by \<^verbatim>\<open>ctypes\<close>. \<open>KeyError\<close> carries the missing key.
  \<open>FloatRange\<close> stands for every binary64 result outside the normal range (overflow to
  infinity or \<^verbatim>\<open>OverflowError\<close>, underflow to a subnormal), which this model does not
  represent.
\<close>

datatype error =
    KeyError int
  | IndexError
  | TypeError
  | ValueError
  | ZeroDivisionError
  | FloatRange
  | is_PicoSDKException: PicoSDKException string

text \<open>A Python number is an unbounded \<^verbatim>\<open>int\<close> or a \<^verbatim>\<open>float\<close> (a finite binary64 value,
  kept as the rational it denotes).\<close>

datatype pynum = PyInt int | PyFloat rat

definition bind_err :: "error + 'a \<Rightarrow> ('a \<Rightarrow> error + 'b) \<Rightarrow> error + 'b" where
  "bind_err m f = (case m of Inl e \<Rightarrow> Inl e | Inr v \<Rightarrow> f v)"

text \<open>\<^verbatim>\<open>xs[i]\<close> on a list: a negative index counts from the end, anything else out of
  range raises \<^verbatim>\<open>IndexError\<close>.\<close>

definition py_index :: "'a list \<Rightarrow> int \<Rightarrow> error + 'a" where
  "py_index xs i =
     (if 0 \<le> i \<and> i < int (length xs) then Inr (xs ! nat i)
      else if i < 0 \<and> - int (length xs) \<le> i then Inr (xs ! nat (int (length xs) + i))
      else Inl IndexError)"

text \<open>\<^verbatim>\<open>d[k]\<close> on a dictionary, kept as an association list in insertion order.\<close>

definition py_getitem :: "(int \<times> 'v) list \<Rightarrow> int \<Rightarrow> error + 'v" where
  "py_getitem d k = (case map_of d k of None \<Rightarrow> Inl (KeyError k) | Some v \<Rightarrow> Inr v)"

text \<open>\<^verbatim>\<open>d[k] = v\<close>: an existing key keeps its place, a new key goes last.\<close>

definition py_setitem :: "(int \<times> 'v) list \<Rightarrow> int \<Rightarrow> 'v \<Rightarrow> (int \<times> 'v) list" where
  "py_setitem d k v = AList.update k v d"

section \<open>Binary64 arithmetic\<close>

text \<open>
  Python's \<^verbatim>\<open>float\<close> is IEEE 754 binary64 with round-to-nearest, ties to even. A finite
  non-zero double is \<open>m * 2 powi e\<close> with \<open>2 ^ 52 \<le> \<bar>m\<bar> < 2 ^ 53\<close>; \<open>ilog2 x\<close> is the
  exponent \<open>\<lfloor>log\<^sub>2 \<bar>x\<bar>\<rfloor>\<close> of a non-zero rational and \<open>round53\<close> rounds to 53 significant
  bits. \<open>fl\<close> is the rounding of an exact result as the interpreter performs it, restricted to
  the normal range \<open>2 powi (-1022) \<le> \<bar>x\<bar>\<close>, \<open>\<bar>round53 x\<bar> < 2 powi 1024\<close>. The sign of a zero is
  not represented.
\<close>

definition ilog2 :: "rat \<Rightarrow> int" where
  "ilog2 x =
     (let (n, d) = quotient_of \<bar>x\<bar>;
          k = bitlen n - bitlen d
      in if 2 powi k \<le> \<bar>x\<bar> then k else k - 1)"

definition round_half_even :: "rat \<Rightarrow> int" where
  "round_half_even y =
     (let f = \<lfloor>y\<rfloor>; r = y - of_int f
      in if r < 1 / 2 then f
         else if 1 / 2 < r then f + 1
         else if even f then f else f + 1)"

definition round53 :: "rat \<Rightarrow> rat" where
  "round53 x =
     (if x = 0 then 0
      else let q = 2 powi (ilog2 x - 52)
           in of_int (round_half_even (x / q)) * q)"

definition fl :: "rat \<Rightarrow> error + rat" where
  "fl x =
     (if x = 0 then Inr 0
      else if ilog2 x < - 1022 \<or> 1023 < ilog2 (round53 x) then Inl FloatRange
      else Inr (round53 x))"

text \<open>\<^verbatim>\<open>float(x)\<close>, \<^verbatim>\<open>x / y\<close>, \<^verbatim>\<open>x * y\<close> with a float operand, and \<^verbatim>\<open>int(x)\<close>
  of a float (truncation toward zero). The quotient of two \<^verbatim>\<open>int\<close>s is the correctly rounded
  exact quotient; with a float operand an \<^verbatim>\<open>int\<close> is converted first.\<close>

definition to_float :: "pynum \<Rightarrow> error + rat" where
  "to_float x = (case x of PyInt n \<Rightarrow> fl (of_int n) | PyFloat y \<Rightarrow> Inr y)"

definition float_div :: "rat \<Rightarrow> rat \<Rightarrow> error + rat" where
  "float_div x y = (if y = 0 then Inl ZeroDivisionError else fl (x / y))"

definition py_truediv :: "pynum \<Rightarrow> pynum \<Rightarrow> error + rat" where
  "py_truediv a b =
     (case (a, b) of
        (PyInt n, PyInt d) \<Rightarrow>
          if d = 0 then Inl ZeroDivisionError else fl (of_int n / of_int d)
      | _ \<Rightarrow> bind_err (to_float a) (\<lambda>x. bind_err (to_float b) (\<lambda>y. float_div x y)))"

definition float_mul :: "rat \<Rightarrow> pynum \<Rightarrow> error + rat" where
  "float_mul x b = bind_err (to_float b) (\<lambda>y. fl (x * y))"

definition int_of_float :: "rat \<Rightarrow> int" where
  "int_of_float x = (if 0 \<le> x then \<lfloor>x\<rfloor> else \<lceil>x\<rceil>)"

section \<open>Constants, driver and session\<close>

text \<open>
  The modules \<^verbatim>\<open>error_list.py\<close> and \<^verbatim>\<open>constants.py\<close> are not among the sources. What
  the modelled functions read from them is a parameter: the status table \<open>ERROR_STRING\<close>, the
  status \<open>POWER_SOURCE.SUPPLY_NOT_CONNECTED\<close>, the millivolt table \<open>RANGE_LIST\<close> and the
  members of \<open>DATA_TYPE\<close>.
\<close>

record constants =
  ERROR_STRING :: "int \<Rightarrow> string option"
  SUPPLY_NOT_CONNECTED :: int
  RANGE_LIST :: "int list"
  INT8_T :: int
  INT16_T :: int
  INT32_T :: int
  INT64_T :: int
  UINT32_T :: int

text \<open>
  A call into the vendor library: the name of the entry point and the arguments as the source
  passes them (\<open>ARef\<close> is a \<^verbatim>\<open>ctypes.byref\<close> output parameter, \<open>ADouble x\<close> and
  \<open>ASingle x\<close> are \<^verbatim>\<open>c_double(x)\<close> and \<^verbatim>\<open>c_float(x)\<close>). The library is an external
  collaborator: a \<open>driver\<close> answers a call, given the calls made before it, with a status and
  the values it wrote to the output parameters, in order.
\<close>

datatype arg = AInt int | ABool bool | ABytes string | ADouble rat | ASingle rat | ARef | ANone

datatype native_call = Call string "arg list"

record reply =
  status :: int
  outs :: "int list"

type_synonym driver = "native_call list \<Rightarrow> native_call \<Rightarrow> reply"

text \<open>The value of a \<^verbatim>\<open>ctypes\<close> integer of the given width after the library wrote \<open>v\<close>
  to it; an output parameter the library left alone keeps its initial value.\<close>

definition wrap_signed :: "nat \<Rightarrow> int \<Rightarrow> int" where
  "wrap_signed bits v = (v + 2 ^ (bits - 1)) mod 2 ^ bits - 2 ^ (bits - 1)"

definition out_value :: "reply \<Rightarrow> nat \<Rightarrow> int \<Rightarrow> int" where
  "out_value r i initial = (if i < length (outs r) then outs r ! i else initial)"

text \<open>
  The fields of \<^verbatim>\<open>PicoScopeBase\<close> (with the class attribute \<^verbatim>\<open>_unit_prefix_n\<close> of the
  subclass), together with what the object does to the world: the library calls it has made
  and the lines it has printed.
\<close>

record session =
  unit_prefix_n :: string
  handle :: int
  range_dict :: "(int \<times> int) list"
  resolution :: "int option"
  max_adc_value :: "int option"
  min_adc_value :: "int option"
  trace :: "native_call list"
  stdout :: "string list"

definition PicoScopeBase_init :: "string \<Rightarrow> session" where
  "PicoScopeBase_init prefix =
     \<lparr>unit_prefix_n = prefix, handle = 0, range_dict = [], resolution = None,
      max_adc_value = None, min_adc_value = None, trace = [], stdout = []\<rparr>"

definition ps6000a_init :: session where
  "ps6000a_init = PicoScopeBase_init ''ps6000a''"

definition ps5000a_init :: session where
  "ps5000a_init = PicoScopeBase_init ''ps5000a''"

definition native :: "driver \<Rightarrow> session \<Rightarrow> string \<Rightarrow> arg list \<Rightarrow> reply \<times> session" where
  "native drv s name args =
     (let c = Call name args in (drv (trace s) c, s\<lparr>trace := trace s @ [c]\<rparr>))"

definition get_attr_function :: "session \<Rightarrow> string \<Rightarrow> string" where
  "get_attr_function s function_name = unit_prefix_n s @ function_name"

definition close_unit :: "driver \<Rightarrow> session \<Rightarrow> session" where
  "close_unit drv s = snd (native drv s (get_attr_function s ''CloseUnit'') [AInt (handle s)])"

section \<open>Status handling\<close>

definition error_handler :: "constants \<Rightarrow> driver \<Rightarrow> session \<Rightarrow> int \<Rightarrow> (error + unit) \<times> session" where
  "error_handler K drv s st =
     (case ERROR_STRING K st of
        None \<Rightarrow> (Inl (KeyError st), s)
      | Some error_code \<Rightarrow>
          if st \<noteq> 0 then
            if st \<in> set [SUPPLY_NOT_CONNECTED K]
            then (Inr (), s\<lparr>stdout := stdout s @ [''WARNING: Power supply not connected'']\<rparr>)
            else (Inl (PicoSDKException error_code), close_unit drv s)
          else (Inr (), s))"

text \<open>\<open>written\<close> is what the call stores through pointers into the object's own fields (the
  handle, for \<^verbatim>\<open>OpenUnit\<close>) before the status is looked at.\<close>

definition call_attr_function ::
  "constants \<Rightarrow> driver \<Rightarrow> session \<Rightarrow> string \<Rightarrow> arg list \<Rightarrow> (reply \<Rightarrow> session \<Rightarrow> session)
     \<Rightarrow> (error + reply) \<times> session" where
  "call_attr_function K drv s function_name args written =
     (let (r, s1) = native drv s (get_attr_function s function_name) args
      in case error_handler K drv (written r s1) (status r) of
           (Inl e, s2) \<Rightarrow> (Inl e, s2)
         | (Inr u, s2) \<Rightarrow> (Inr r, s2))"

definition unwritten :: "reply \<Rightarrow> session \<Rightarrow> session" where
  "unwritten r s = s"

section \<open>Opening a unit\<close>

definition open_unit_base ::
  "constants \<Rightarrow> driver \<Rightarrow> session \<Rightarrow> string option \<Rightarrow> int \<Rightarrow> (error + unit) \<times> session" where
  "open_unit_base K drv s serial_number res =
     (case call_attr_function K drv s ''OpenUnit''
             [ARef, (case serial_number of None \<Rightarrow> ANone | Some sn \<Rightarrow> ABytes sn), AInt res]
             (\<lambda>r s'. s'\<lparr>handle := wrap_signed 16 (out_value r 0 (handle s'))\<rparr>) of
        (Inl e, s1) \<Rightarrow> (Inl e, s1)
      | (Inr r, s1) \<Rightarrow> (Inr (), s1\<lparr>resolution := Some res\<rparr>))"

definition get_adc_limits :: "constants \<Rightarrow> driver \<Rightarrow> session \<Rightarrow> (error + int \<times> int) \<times> session" where
  "get_adc_limits K drv s =
     (case resolution s of
        None \<Rightarrow> (Inl (PicoSDKException ''Device has not been initialized, use open_unit()''), s)
      | Some res \<Rightarrow>
          (case call_attr_function K drv s ''GetAdcLimits''
                  [AInt (handle s), AInt res, ARef, ARef] unwritten of
             (Inl e, s1) \<Rightarrow> (Inl e, s1)
           | (Inr r, s1) \<Rightarrow>
               (Inr (wrap_signed 32 (out_value r 0 0), wrap_signed 32 (out_value r 1 0)), s1)))"

definition get_maximum_adc_value :: "constants \<Rightarrow> driver \<Rightarrow> session \<Rightarrow> (error + int) \<times> session" where
  "get_maximum_adc_value K drv s =
     (case call_attr_function K drv s ''MaximumValue'' [AInt (handle s), ARef] unwritten of
        (Inl e, s1) \<Rightarrow> (Inl e, s1)
      | (Inr r, s1) \<Rightarrow> (Inr (wrap_signed 16 (out_value r 0 0)), s1))"

definition ps6000a_open_unit ::
  "constants \<Rightarrow> driver \<Rightarrow> session \<Rightarrow> string option \<Rightarrow> int \<Rightarrow> (error + unit) \<times> session" where
  "ps6000a_open_unit K drv s serial_number res =
     (case open_unit_base K drv s serial_number res of
        (Inl e, s1) \<Rightarrow> (Inl e, s1)
      | (Inr u, s1) \<Rightarrow>
          (case get_adc_limits K drv s1 of
             (Inl e, s2) \<Rightarrow> (Inl e, s2)
           | (Inr (lo, hi), s2) \<Rightarrow>
               (Inr (), s2\<lparr>min_adc_value := Some lo, max_adc_value := Some hi\<rparr>)))"

definition ps5000a_open_unit ::
  "constants \<Rightarrow> driver \<Rightarrow> session \<Rightarrow> string option \<Rightarrow> int \<Rightarrow> (error + unit) \<times> session" where
  "ps5000a_open_unit K drv s serial_number res =
     (case open_unit_base K drv s serial_number res of
        (Inl e, s1) \<Rightarrow> (Inl e, s1)
      | (Inr u, s1) \<Rightarrow>
          (case get_maximum_adc_value K drv s1 of
             (Inl e, s2) \<Rightarrow> (Inl e, s2)
           | (Inr hi, s2) \<Rightarrow> (Inr (), s2\<lparr>max_adc_value := Some hi\<rparr>)))"

section \<open>Conversion between ADC codes and millivolts\<close>

definition mv_to_adc :: "constants \<Rightarrow> session \<Rightarrow> pynum \<Rightarrow> int \<Rightarrow> error + int" where
  "mv_to_adc K s mv channel_range =
     bind_err (py_index (RANGE_LIST K) channel_range) (\<lambda>channel_range_mv.
     bind_err (py_truediv mv (PyInt channel_range_mv)) (\<lambda>q.
       case max_adc_value s of
         None \<Rightarrow> Inl TypeError
       | Some m \<Rightarrow> bind_err (float_mul q (PyInt m)) (\<lambda>p. Inr (int_of_float p))))"

definition adc_to_mv :: "constants \<Rightarrow> session \<Rightarrow> pynum \<Rightarrow> int \<Rightarrow> error + rat" where
  "adc_to_mv K s adc channel_range =
     bind_err (py_index (RANGE_LIST K) channel_range) (\<lambda>entry.
     bind_err (to_float (PyInt entry)) (\<lambda>channel_range_mv.
     bind_err (to_float adc) (\<lambda>a.
       case max_adc_value s of
         None \<Rightarrow> Inl TypeError
       | Some m \<Rightarrow>
           bind_err (to_float (PyInt m)) (\<lambda>mf.
           bind_err (float_div a mf) (\<lambda>q. fl (q * channel_range_mv))))))"

text \<open>A capture buffer is a \<^verbatim>\<open>ctypes\<close> array of one of five element types, zero-filled
  when created; after conversion a channel's entry is a Python list.\<close>

datatype ctype = c_int8 | c_int16 | c_int32 | c_int64 | c_uint32

datatype pyval = CArray ctype "int list" | PyList "pynum list"

definition elements :: "pyval \<Rightarrow> pynum list" where
  "elements b = (case b of CArray t xs \<Rightarrow> map PyInt xs | PyList xs \<Rightarrow> xs)"

fun map_err :: "('a \<Rightarrow> error + 'b) \<Rightarrow> 'a list \<Rightarrow> error + 'b list" where
  "map_err f [] = Inr []"
| "map_err f (x # xs) =
     bind_err (f x) (\<lambda>y. bind_err (map_err f xs) (\<lambda>ys. Inr (y # ys)))"

definition buffer_adc_to_mv :: "constants \<Rightarrow> session \<Rightarrow> pyval \<Rightarrow> int \<Rightarrow> error + pyval" where
  "buffer_adc_to_mv K s buffer channel =
     bind_err
       (map_err (\<lambda>sample. bind_err (py_getitem (range_dict s) channel) (adc_to_mv K s sample))
          (elements buffer))
       (\<lambda>mvs. Inr (PyList (map PyFloat mvs)))"

definition buffer_ctypes_to_list :: "pyval \<Rightarrow> pyval" where
  "buffer_ctypes_to_list ctypes_list = PyList (elements ctypes_list)"

text \<open>
  The two bulk conversions assign into the dictionary they are given. Dictionaries are
  objects: a \<open>heap\<close> gives the contents of each, a reference names one, and the functions take
  and return references.
\<close>

type_synonym ref = nat
type_synonym heap = "ref \<Rightarrow> (int \<times> pyval) list"

fun adc_to_mv_loop ::
  "constants \<Rightarrow> session \<Rightarrow> ref \<Rightarrow> int list \<Rightarrow> heap \<Rightarrow> (error + unit) \<times> heap" where
  "adc_to_mv_loop K s channels_buffer [] h = (Inr (), h)"
| "adc_to_mv_loop K s channels_buffer (channel # rest) h =
     (case bind_err (py_getitem (h channels_buffer) channel)
             (\<lambda>buffer. buffer_adc_to_mv K s buffer channel) of
        Inl e \<Rightarrow> (Inl e, h)
      | Inr v \<Rightarrow>
          adc_to_mv_loop K s channels_buffer rest
            (h(channels_buffer := py_setitem (h channels_buffer) channel v)))"

definition buffer_adc_to_mv_multiple_channels ::
  "constants \<Rightarrow> session \<Rightarrow> heap \<Rightarrow> ref \<Rightarrow> (error + ref) \<times> heap" where
  "buffer_adc_to_mv_multiple_channels K s h channels_buffer =
     (case adc_to_mv_loop K s channels_buffer (map fst (h channels_buffer)) h of
        (Inl e, h') \<Rightarrow> (Inl e, h')
      | (Inr u, h') \<Rightarrow> (Inr channels_buffer, h'))"

fun ctype_to_list_loop :: "ref \<Rightarrow> int list \<Rightarrow> heap \<Rightarrow> (error + unit) \<times> heap" where
  "ctype_to_list_loop channels_buffer [] h = (Inr (), h)"
| "ctype_to_list_loop channels_buffer (channel # rest) h =
     (case py_getitem (h channels_buffer) channel of
        Inl e \<Rightarrow> (Inl e, h)
      | Inr buffer \<Rightarrow>
          ctype_to_list_loop channels_buffer rest
            (h(channels_buffer :=
                 py_setitem (h channels_buffer) channel (buffer_ctypes_to_list buffer))))"

definition buffer_ctype_to_list_for_multiple_channels ::
  "heap \<Rightarrow> ref \<Rightarrow> (error + ref) \<times> heap" where
  "buffer_ctype_to_list_for_multiple_channels h channels_buffer =
     (case ctype_to_list_loop channels_buffer (map fst (h channels_buffer)) h of
        (Inl e, h') \<Rightarrow> (Inl e, h')
      | (Inr u, h') \<Rightarrow> (Inr channels_buffer, h'))"

section \<open>Channels and trigger\<close>

definition set_channel_on ::
  "constants \<Rightarrow> driver \<Rightarrow> session \<Rightarrow> int \<Rightarrow> int \<Rightarrow> int \<Rightarrow> rat \<Rightarrow> int \<Rightarrow> (error + unit) \<times> session" where
  "set_channel_on K drv s channel rng coupling offset bandwidth =
     (let s1 = s\<lparr>range_dict := py_setitem (range_dict s) channel rng\<rparr>;
          (r, s2) = native drv s1 (unit_prefix_n s1 @ ''SetChannelOn'')
                      [AInt (handle s1), AInt channel, AInt coupling, AInt rng,
                       ADouble offset, AInt bandwidth]
      in error_handler K drv s2 (status r))"

definition set_channel_off ::
  "constants \<Rightarrow> driver \<Rightarrow> session \<Rightarrow> int \<Rightarrow> (error + unit) \<times> session" where
  "set_channel_off K drv s channel =
     (let (r, s1) = native drv s (unit_prefix_n s @ ''SetChannelOff'')
                      [AInt (handle s), AInt channel]
      in error_handler K drv s1 (status r))"

definition set_channel_base ::
  "constants \<Rightarrow> driver \<Rightarrow> session \<Rightarrow> int \<Rightarrow> int \<Rightarrow> bool \<Rightarrow> int \<Rightarrow> rat \<Rightarrow> (error + unit) \<times> session" where
  "set_channel_base K drv s channel rng enabled coupling offset =
     (let s1 = s\<lparr>range_dict := py_setitem (range_dict s) channel rng\<rparr>;
          (r, s2) = native drv s1 ''ps5000aSetChannel''
                      [AInt (handle s1), AInt channel, ABool enabled, AInt coupling, AInt rng,
                       ASingle offset]
      in error_handler K drv s2 (status r))"

definition ps6000a_set_channel ::
  "constants \<Rightarrow> driver \<Rightarrow> session \<Rightarrow> int \<Rightarrow> int \<Rightarrow> bool \<Rightarrow> int \<Rightarrow> rat \<Rightarrow> int \<Rightarrow> (error + unit) \<times> session" where
  "ps6000a_set_channel K drv s channel rng enabled coupling offset bandwidth =
     (if enabled then set_channel_on K drv s channel rng coupling offset bandwidth
      else set_channel_off K drv s channel)"

definition ps5000a_set_channel ::
  "constants \<Rightarrow> driver \<Rightarrow> session \<Rightarrow> int \<Rightarrow> int \<Rightarrow> bool \<Rightarrow> int \<Rightarrow> rat \<Rightarrow> (error + unit) \<times> session" where
  "ps5000a_set_channel K drv s channel rng enabled coupling offset =
     set_channel_base K drv s channel rng enabled coupling offset"

definition set_simple_trigger ::
  "constants \<Rightarrow> driver \<Rightarrow> session \<Rightarrow> int \<Rightarrow> pynum \<Rightarrow> bool \<Rightarrow> int \<Rightarrow> int \<Rightarrow> int
     \<Rightarrow> (error + unit) \<times> session" where
  "set_simple_trigger K drv s channel threshold_mv enable direction delay auto_trigger_ms =
     (case bind_err (py_getitem (range_dict s) channel) (mv_to_adc K s threshold_mv) of
        Inl e \<Rightarrow> (Inl e, s)
      | Inr threshold_adc \<Rightarrow>
          (let (r, s1) = native drv s (unit_prefix_n s @ ''SetSimpleTrigger'')
                           [AInt (handle s), ABool enable, AInt channel, AInt threshold_adc,
                            AInt direction, AInt delay, AInt auto_trigger_ms]
           in error_handler K drv s1 (status r)))"

section \<open>Data buffers\<close>

text \<open>\<^verbatim>\<open>(ctype * samples)()\<close>: a zero-filled array; a negative length raises
  \<^verbatim>\<open>ValueError\<close>. Running out of memory is not modelled.\<close>

definition new_array :: "ctype \<Rightarrow> int \<Rightarrow> error + pyval" where
  "new_array t samples =
     (if samples < 0 then Inl ValueError else Inr (CArray t (replicate (nat samples) 0)))"

definition set_data_buffer_ps5000a ::
  "constants \<Rightarrow> driver \<Rightarrow> session \<Rightarrow> int \<Rightarrow> int \<Rightarrow> int \<Rightarrow> int \<Rightarrow> (error + pyval) \<times> session" where
  "set_data_buffer_ps5000a K drv s channel samples segment ratio_mode =
     (case new_array c_int16 samples of
        Inl e \<Rightarrow> (Inl e, s)
      | Inr buffer \<Rightarrow>
          (case call_attr_function K drv s ''SetDataBuffer''
                  [AInt (handle s), AInt channel, ARef, AInt samples, AInt segment,
                   AInt ratio_mode] unwritten of
             (Inl e, s1) \<Rightarrow> (Inl e, s1)
           | (Inr r, s1) \<Rightarrow> (Inr buffer, s1)))"

definition ctype_of_datatype :: "constants \<Rightarrow> int \<Rightarrow> error + ctype" where
  "ctype_of_datatype K datatype =
     (if datatype = INT8_T K then Inr c_int8
      else if datatype = INT16_T K then Inr c_int16
      else if datatype = INT32_T K then Inr c_int32
      else if datatype = INT64_T K then Inr c_int64
      else if datatype = UINT32_T K then Inr c_uint32
      else Inl (PicoSDKException ''Invalid datatype selected for buffer''))"

definition set_data_buffer_ps6000a ::
  "constants \<Rightarrow> driver \<Rightarrow> session \<Rightarrow> int \<Rightarrow> int \<Rightarrow> int \<Rightarrow> int \<Rightarrow> int \<Rightarrow> int
     \<Rightarrow> (error + pyval) \<times> session" where
  "set_data_buffer_ps6000a K drv s channel samples segment datatype ratio_mode action =
     (case bind_err (ctype_of_datatype K datatype) (\<lambda>t. new_array t samples) of
        Inl e \<Rightarrow> (Inl e, s)
      | Inr buffer \<Rightarrow>
          (case call_attr_function K drv s ''SetDataBuffer''
                  [AInt (handle s), AInt channel, ARef, AInt samples, AInt datatype,
                   AInt segment, AInt ratio_mode, AInt action] unwritten of
             (Inl e, s1) \<Rightarrow> (Inl e, s1)
           | (Inr r, s1) \<Rightarrow> (Inr buffer, s1)))"

text \<open>The loop \<^verbatim>\<open>for channel in self.range\<close> of the two
  \<^verbatim>\<open>set_data_buffer_for_enabled_channels\<close>, over the keys still to visit, with the
  dictionary built so far.\<close>

fun enabled_loop_ps6000a ::
  "constants \<Rightarrow> driver \<Rightarrow> int \<Rightarrow> int \<Rightarrow> int \<Rightarrow> int \<Rightarrow> int \<Rightarrow> int list
     \<Rightarrow> (int \<times> pyval) list \<Rightarrow> session \<Rightarrow> (error + (int \<times> pyval) list) \<times> session" where
  "enabled_loop_ps6000a K drv samples segment datatype ratio_mode action [] channels_buffer s =
     (Inr channels_buffer, s)"
| "enabled_loop_ps6000a K drv samples segment datatype ratio_mode action (channel # rest)
       channels_buffer s =
     (case set_data_buffer_ps6000a K drv s channel samples segment datatype ratio_mode action of
        (Inl e, s1) \<Rightarrow> (Inl e, s1)
      | (Inr buffer, s1) \<Rightarrow>
          enabled_loop_ps6000a K drv samples segment datatype ratio_mode action rest
            (py_setitem channels_buffer channel buffer) s1)"

definition ps6000a_set_data_buffer_for_enabled_channels ::
  "constants \<Rightarrow> driver \<Rightarrow> session \<Rightarrow> int \<Rightarrow> int \<Rightarrow> int \<Rightarrow> int \<Rightarrow> int
     \<Rightarrow> (error + (int \<times> pyval) list) \<times> session" where
  "ps6000a_set_data_buffer_for_enabled_channels K drv s samples segment datatype ratio_mode action =
     enabled_loop_ps6000a K drv samples segment datatype ratio_mode action
       (map fst (range_dict s)) [] s"

fun enabled_loop_ps5000a ::
  "constants \<Rightarrow> driver \<Rightarrow> int \<Rightarrow> int \<Rightarrow> int \<Rightarrow> int list
     \<Rightarrow> (int \<times> pyval) list \<Rightarrow> session \<Rightarrow> (error + (int \<times> pyval) list) \<times> session" where
  "enabled_loop_ps5000a K drv samples segment ratio_mode [] channels_buffer s =
     (Inr channels_buffer, s)"
| "enabled_loop_ps5000a K drv samples segment ratio_mode (channel # rest) channels_buffer s =
     (case set_data_buffer_ps5000a K drv s channel samples segment ratio_mode of
        (Inl e, s1) \<Rightarrow> (Inl e, s1)
      | (Inr buffer, s1) \<Rightarrow>
          enabled_loop_ps5000a K drv samples segment ratio_mode rest
            (py_setitem channels_buffer channel buffer) s1)"

definition ps5000a_set_data_buffer_for_enabled_channels ::
  "constants \<Rightarrow> driver \<Rightarrow> session \<Rightarrow> int \<Rightarrow> int \<Rightarrow> int
     \<Rightarrow> (error + (int \<times> pyval) list) \<times> session" where
  "ps5000a_set_data_buffer_for_enabled_channels K drv s samples segment ratio_mode =
     enabled_loop_ps5000a K drv samples segment ratio_mode (map fst (range_dict s)) [] s"

section \<open>Block capture\<close>

definition pre_samples_of :: "int \<Rightarrow> int \<Rightarrow> error + int" where
  "pre_samples_of samples pre_trig_percent =
     bind_err (py_truediv (PyInt (samples * pre_trig_percent)) (PyInt 100))
       (\<lambda>x. Inr (int_of_float x))"

definition run_block_capture ::
  "constants \<Rightarrow> driver \<Rightarrow> session \<Rightarrow> int \<Rightarrow> int \<Rightarrow> int \<Rightarrow> int \<Rightarrow> (error + int) \<times> session" where
  "run_block_capture K drv s timebase samples pre_trig_percent segment =
     (case pre_samples_of samples pre_trig_percent of
        Inl e \<Rightarrow> (Inl e, s)
      | Inr pre_samples \<Rightarrow>
          (let post_samples = samples - pre_samples
           in case call_attr_function K drv s ''RunBlock''
                     [AInt (handle s), AInt pre_samples, AInt post_samples, AInt timebase, ARef,
                      AInt segment, ANone, ANone] unwritten of
                (Inl e, s1) \<Rightarrow> (Inl e, s1)
              | (Inr r, s1) \<Rightarrow> (Inr (wrap_signed 32 (out_value r 0 0)), s1)))"

section \<open>Example parameters\<close>

text \<open>One instance of the parameters, a driver that accepts every call, and a driver that
  reports a maximum ADC value; concrete evaluations below use them.\<close>

definition example_constants :: constants where
  "example_constants =
     \<lparr>ERROR_STRING = map_of [(0, ''PICO_OK''), (3, ''PICO_NOT_FOUND''),
                              (281, ''PICO_POWER_SUPPLY_NOT_CONNECTED'')],
      SUPPLY_NOT_CONNECTED = 281,
      RANGE_LIST = [10, 20, 50, 100, 200, 500, 1000, 2000, 5000, 10000, 20000],
      INT8_T = 0, INT16_T = 1, INT32_T = 2, INT64_T = 4, UINT32_T = 3\<rparr>"

definition ok_driver :: driver where
  "ok_driver tr c = \<lparr>status = 0, outs = []\<rparr>"

definition max_driver :: driver where
  "max_driver tr c =
     (case c of Call name args \<Rightarrow>
        if name = ''ps5000aMaximumValue'' then \<lparr>status = 0, outs = [32512]\<rparr>
        else if name = ''ps5000aOpenUnit'' then \<lparr>status = 0, outs = [16384]\<rparr>
        else \<lparr>status = 0, outs = []\<rparr>)"

definition failing_driver :: driver where
  "failing_driver tr c = \<lparr>status = 3, outs = []\<rparr>"

text \<open>The statuses on which the status handler returns normally: listed in the table, and
  zero or the power-supply warning.\<close>

definition accepted :: "constants \<Rightarrow> int \<Rightarrow> bool" where
  "accepted K st = (ERROR_STRING K st \<noteq> None \<and> (st = 0 \<or> st = SUPPLY_NOT_CONNECTED K))"

text \<open>A session with one channel configured and a heap holding one channel-to-buffer
  dictionary, at reference 7.\<close>

definition example_session :: session where
  "example_session = ps6000a_init\<lparr>range_dict := [(0, 5)], max_adc_value := Some 32512\<rparr>"

definition example_heap :: heap where
  "example_heap = (\<lambda>r. [])(7 := [(0, CArray c_int16 [0, 16256])])"

section \<open>Properties of the status handler\<close>

lemma close_unit_trace:
  "close_unit drv s =
     s\<lparr>trace := trace s @ [Call (unit_prefix_n s @ ''CloseUnit'') [AInt (handle s)]]\<rparr>"
  by (simp add: close_unit_def native_def get_attr_function_def Let_def)

text \<open>
  Claim C1, as amended. For every status code that has an entry in the status table: code 0
  returns normally and leaves the session as it was; the code \<open>SUPPLY_NOT_CONNECTED\<close> prints a
  warning and returns normally, with no library call made (the unit stays open); every other
  non-zero code calls \<open>CloseUnit\<close> on the handle and raises \<open>PicoSDKException\<close> with the table's
  message.
\<close>

theorem error_handler_known_status:
  assumes "ERROR_STRING K st = Some msg"
  shows "error_handler K drv s st =
     (if st = 0 then (Inr (), s)
      else if st = SUPPLY_NOT_CONNECTED K
        then (Inr (), s\<lparr>stdout := stdout s @ [''WARNING: Power supply not connected'']\<rparr>)
        else (Inl (PicoSDKException msg),
              s\<lparr>trace := trace s @ [Call (unit_prefix_n s @ ''CloseUnit'') [AInt (handle s)]]\<rparr>))"
  using assms by (simp add: error_handler_def close_unit_trace)

theorem error_handler_known_status_witness:
  "ERROR_STRING example_constants 3 = Some ''PICO_NOT_FOUND'' \<and>
   error_handler example_constants ok_driver ps6000a_init 3 =
     (Inl (PicoSDKException ''PICO_NOT_FOUND''),
      ps6000a_init\<lparr>trace := [Call ''ps6000aCloseUnit'' [AInt 0]]\<rparr>)"
  using error_handler_known_status
    [of example_constants 3 "''PICO_NOT_FOUND''" ok_driver ps6000a_init]
  by (simp add: example_constants_def ps6000a_init_def PicoScopeBase_init_def)

text \<open>The claim as stated covers every status code. A non-zero code without an entry in the
  table neither closes the unit nor raises \<open>PicoSDKException\<close>: the session is unchanged.\<close>

theorem error_handler_unlisted_status_leaves_unit_open:
  "error_handler example_constants ok_driver ps6000a_init 7 = (Inl (KeyError 7), ps6000a_init)"
  by (simp add: error_handler_def example_constants_def)

text \<open>A Python dictionary is finite, so whatever the table holds, some non-zero status is
  missing from it.\<close>

lemma finite_table_misses_a_status:
  assumes "finite (dom (ERROR_STRING K))"
  shows "\<exists>st. st \<noteq> 0 \<and> error_handler K drv s st = (Inl (KeyError st), s)"
proof -
  have "finite (insert 0 (dom (ERROR_STRING K)))" using assms by simp
  then obtain st where "st \<notin> insert 0 (dom (ERROR_STRING K))"
    using ex_new_if_finite infinite_UNIV_int by blast
  then have "st \<noteq> 0" "ERROR_STRING K st = None" by auto
  then show ?thesis by (auto simp: error_handler_def)
qed

text \<open>
  Claim C6, as amended. For every status code without an entry in the status table the handler
  raises \<open>KeyError\<close> from the table lookup, before the code is classified: nothing is printed,
  no library call is made, and the session is unchanged.
\<close>

theorem error_handler_unknown_status:
  assumes "ERROR_STRING K st = None"
  shows "error_handler K drv s st = (Inl (KeyError st), s)"
  using assms by (simp add: error_handler_def)

theorem error_handler_unknown_status_witness:
  "ERROR_STRING example_constants (- 1) = None \<and>
   error_handler example_constants ok_driver ps5000a_init (- 1) =
     (Inl (KeyError (- 1)), ps5000a_init)"
  using error_handler_unknown_status [of example_constants "- 1" ok_driver ps5000a_init]
  by (simp add: example_constants_def)

text \<open>The claim as stated promises a normal return with a generic outcome; the handler raises
  instead.\<close>

theorem error_handler_unknown_status_raises:
  "fst (error_handler example_constants ok_driver ps5000a_init 4096) = Inl (KeyError 4096)"
  by (simp add: error_handler_def example_constants_def)

section \<open>Properties of the trigger\<close>

text \<open>
  Claim C2, as amended. For every channel with no range recorded in the session,
  \<open>set_simple_trigger\<close> raises \<open>KeyError\<close> for that channel from the range lookup, before any
  library call: the session, with its record of calls, is unchanged.
\<close>

theorem set_simple_trigger_no_range:
  assumes "map_of (range_dict s) channel = None"
  shows "set_simple_trigger K drv s channel threshold_mv enable direction delay auto_trigger_ms =
           (Inl (KeyError channel), s)"
  using assms by (simp add: set_simple_trigger_def py_getitem_def bind_err_def)

theorem set_simple_trigger_no_range_witness:
  "map_of (range_dict ps5000a_init) 1 = None \<and>
   set_simple_trigger example_constants ok_driver ps5000a_init 1 (PyFloat 250) True 2 0 1000 =
     (Inl (KeyError 1), ps5000a_init)"
  using set_simple_trigger_no_range
    [of ps5000a_init 1 example_constants ok_driver "PyFloat 250" True 2 0 1000]
  by (simp add: ps5000a_init_def PicoScopeBase_init_def)

text \<open>The claim as stated names the library's configuration error; what is raised on a fresh
  session is the dictionary's \<open>KeyError\<close>, not a \<open>PicoSDKException\<close>.\<close>

theorem set_simple_trigger_raises_key_error:
  "fst (set_simple_trigger example_constants ok_driver ps6000a_init 0 (PyInt 500) True 2 0 3000)
     = Inl (KeyError 0) \<and> \<not> is_PicoSDKException (KeyError 0)"
  by (simp add: set_simple_trigger_def py_getitem_def bind_err_def ps6000a_init_def
      PicoScopeBase_init_def)

section \<open>Frame properties of the status handler\<close>

lemma error_handler_range_dict [simp]:
  "range_dict (snd (error_handler K drv s st)) = range_dict s"
  by (simp add: error_handler_def close_unit_trace split: option.splits)

lemma error_handler_fields [simp]:
  "max_adc_value (snd (error_handler K drv s st)) = max_adc_value s"
  "min_adc_value (snd (error_handler K drv s st)) = min_adc_value s"
  "handle (snd (error_handler K drv s st)) = handle s"
  "resolution (snd (error_handler K drv s st)) = resolution s"
  "unit_prefix_n (snd (error_handler K drv s st)) = unit_prefix_n s"
  by (simp_all add: error_handler_def close_unit_trace split: option.splits)

lemma error_handler_accepted:
  "accepted K st \<Longrightarrow> fst (error_handler K drv s st) = Inr ()"
  by (auto simp: accepted_def error_handler_def)

lemma error_handler_accepted_trace:
  "accepted K st \<Longrightarrow> trace (snd (error_handler K drv s st)) = trace s"
  by (auto simp: accepted_def error_handler_def)

lemma call_attr_function_accepted:
  assumes "accepted K (status (drv (trace s) (Call (unit_prefix_n s @ name) args)))"
  shows "call_attr_function K drv s name args unwritten =
           (Inr (drv (trace s) (Call (unit_prefix_n s @ name) args)),
            snd (error_handler K drv (s\<lparr>trace := trace s @ [Call (unit_prefix_n s @ name) args]\<rparr>)
                   (status (drv (trace s) (Call (unit_prefix_n s @ name) args)))))"
  using error_handler_accepted [OF assms, of drv "s\<lparr>trace := trace s @ [Call (unit_prefix_n s @ name) args]\<rparr>"]
  by (auto simp: call_attr_function_def native_def get_attr_function_def Let_def unwritten_def
      split: prod.splits sum.splits)

lemma accepted_example_0: "accepted example_constants 0"
  by (simp add: accepted_def example_constants_def)

section \<open>Properties of opening a unit\<close>

text \<open>
  Claim C8, as amended. After a successful \<open>open_unit\<close> on a ps5000a session,
  \<open>max_adc_value\<close> is the 16-bit value the driver wrote in answer to the \<open>MaximumValue\<close> query
  (made with the handle that \<open>OpenUnit\<close> returned), and \<open>min_adc_value\<close> is what it was before
  the call: it is not assigned, so on a new session it stays unset.
\<close>

theorem ps5000a_open_unit_limits:
  assumes "fst (ps5000a_open_unit K drv s serial_number res) = Inr ()"
  shows "max_adc_value (snd (ps5000a_open_unit K drv s serial_number res)) =
           Some (wrap_signed 16 (out_value
             (drv (trace s @ [Call (unit_prefix_n s @ ''OpenUnit'')
                     [ARef, (case serial_number of None \<Rightarrow> ANone | Some sn \<Rightarrow> ABytes sn), AInt res]])
                  (Call (unit_prefix_n s @ ''MaximumValue'')
                     [AInt (wrap_signed 16 (out_value
                        (drv (trace s) (Call (unit_prefix_n s @ ''OpenUnit'')
                           [ARef, (case serial_number of None \<Rightarrow> ANone | Some sn \<Rightarrow> ABytes sn), AInt res]))
                        0 (handle s))), ARef])) 0 0)) \<and>
         min_adc_value (snd (ps5000a_open_unit K drv s serial_number res)) = min_adc_value s"
  using assms
  apply (simp add: ps5000a_open_unit_def open_unit_base_def get_maximum_adc_value_def
      call_attr_function_def native_def get_attr_function_def Let_def unwritten_def
      split: prod.splits sum.splits)
  apply (auto simp: error_handler_def close_unit_trace split: option.splits if_splits)
  done

theorem ps5000a_open_unit_limits_witness:
  "fst (ps5000a_open_unit example_constants max_driver ps5000a_init (Some ''JR628/0017'') 1) = Inr () \<and>
   max_adc_value (snd (ps5000a_open_unit example_constants max_driver ps5000a_init (Some ''JR628/0017'') 1)) =
      Some 32512 \<and>
   min_adc_value (snd (ps5000a_open_unit example_constants max_driver ps5000a_init (Some ''JR628/0017'') 1)) =
      min_adc_value ps5000a_init"
proof -
  have ok: "fst (ps5000a_open_unit example_constants max_driver ps5000a_init (Some ''JR628/0017'') 1) = Inr ()"
    by (simp add: ps5000a_open_unit_def open_unit_base_def get_maximum_adc_value_def
      call_attr_function_def native_def get_attr_function_def Let_def unwritten_def
      error_handler_def example_constants_def max_driver_def ps5000a_init_def
      PicoScopeBase_init_def wrap_signed_def out_value_def)
  from ps5000a_open_unit_limits [OF ok] ok show ?thesis
    by (simp add: max_driver_def ps5000a_init_def PicoScopeBase_init_def wrap_signed_def out_value_def)
qed

text \<open>The claim as stated has \<open>min_adc_value\<close> equal to 0 after the call; on a new session it
  is still \<open>None\<close>.\<close>

theorem ps5000a_open_unit_leaves_min_unset:
  "fst (ps5000a_open_unit example_constants max_driver ps5000a_init None 0) = Inr () \<and>
   max_adc_value (snd (ps5000a_open_unit example_constants max_driver ps5000a_init None 0)) = Some 32512 \<and>
   min_adc_value (snd (ps5000a_open_unit example_constants max_driver ps5000a_init None 0)) = None"
  by (simp add: ps5000a_open_unit_def open_unit_base_def get_maximum_adc_value_def
      call_attr_function_def native_def get_attr_function_def Let_def unwritten_def
      error_handler_def example_constants_def max_driver_def ps5000a_init_def
      PicoScopeBase_init_def wrap_signed_def out_value_def)


section \<open>Properties of channel configuration\<close>

lemma map_of_py_setitem [simp]: "map_of (py_setitem d k v) k = Some v"
  by (simp add: py_setitem_def update_conv')

text \<open>
  Claim C9. For a call of \<open>set_channel\<close> with \<open>enabled = True\<close>, on a ps6000a and on a ps5000a
  session, the range table holds the requested range for the channel in the session that
  results, whatever status the driver returns: the entry is written before the library is
  called and no outcome of the status handler (normal return, warning, fatal status with the
  unit closed, unknown status) touches the table.
\<close>

theorem set_channel_records_range:
  "map_of (range_dict (snd (ps6000a_set_channel K drv s channel rng True coupling offset bandwidth)))
      channel = Some rng \<and>
   map_of (range_dict (snd (ps5000a_set_channel K drv s channel rng True coupling offset)))
      channel = Some rng"
  by (simp add: ps6000a_set_channel_def ps5000a_set_channel_def set_channel_on_def
      set_channel_base_def native_def Let_def)

text \<open>On a fatal status the exception is raised and the unit closed, with the entry in place.\<close>

lemma set_channel_fatal_example:
  "ps6000a_set_channel example_constants failing_driver ps6000a_init 0 5 True 0 0 0 =
     (Inl (PicoSDKException ''PICO_NOT_FOUND''),
      ps6000a_init\<lparr>range_dict := [(0, 5)],
        trace := [Call ''ps6000aSetChannelOn'' [AInt 0, AInt 0, AInt 0, AInt 5, ADouble 0, AInt 0],
                  Call ''ps6000aCloseUnit'' [AInt 0]]\<rparr>)"
  by (simp add: ps6000a_set_channel_def set_channel_on_def native_def Let_def error_handler_def
      example_constants_def failing_driver_def close_unit_trace ps6000a_init_def
      PicoScopeBase_init_def py_setitem_def)

section \<open>Properties of buffer allocation\<close>

text \<open>
  Claim C7. For every sample count \<open>samples \<ge> 0\<close>, when the driver accepts the registration,
  \<open>set_data_buffer\<close> with the 16-bit signed datatype returns an array of \<open>c_int16\<close> holding
  exactly \<open>samples\<close> zeros, on the ps6000a path (datatype \<open>INT16_T\<close>, a member distinct from
  \<open>INT8_T\<close>) and on the ps5000a path (which has no other width). On the ps6000a path a datatype
  outside the five members raises \<open>PicoSDKException\<close> \<open>Invalid datatype selected for buffer\<close>
  before any library call, leaving the session as it was.
\<close>

theorem set_data_buffer_allocation:
  "(0 \<le> samples \<and> INT8_T K \<noteq> INT16_T K \<and>
    accepted K (status (drv (trace s) (Call (unit_prefix_n s @ ''SetDataBuffer'')
       [AInt (handle s), AInt channel, ARef, AInt samples, AInt (INT16_T K), AInt segment,
        AInt ratio_mode, AInt action])))
    \<longrightarrow> fst (set_data_buffer_ps6000a K drv s channel samples segment (INT16_T K) ratio_mode action)
          = Inr (CArray c_int16 (replicate (nat samples) 0))) \<and>
   (0 \<le> samples \<and>
    accepted K (status (drv (trace s) (Call (unit_prefix_n s @ ''SetDataBuffer'')
       [AInt (handle s), AInt channel, ARef, AInt samples, AInt segment, AInt ratio_mode])))
    \<longrightarrow> fst (set_data_buffer_ps5000a K drv s channel samples segment ratio_mode)
          = Inr (CArray c_int16 (replicate (nat samples) 0))) \<and>
   (datatype \<notin> {INT8_T K, INT16_T K, INT32_T K, INT64_T K, UINT32_T K}
    \<longrightarrow> set_data_buffer_ps6000a K drv s channel samples segment datatype ratio_mode action
          = (Inl (PicoSDKException ''Invalid datatype selected for buffer''), s))"
  by (auto simp: set_data_buffer_ps6000a_def set_data_buffer_ps5000a_def ctype_of_datatype_def
      new_array_def bind_err_def call_attr_function_accepted)

theorem set_data_buffer_allocation_witness:
  "(0 \<le> (1000::int) \<and> INT8_T example_constants \<noteq> INT16_T example_constants \<and>
    accepted example_constants (status (ok_driver (trace ps6000a_init) (Call (unit_prefix_n ps6000a_init @ ''SetDataBuffer'')
       [AInt (handle ps6000a_init), AInt 0, ARef, AInt 1000, AInt (INT16_T example_constants), AInt 0,
        AInt 0, AInt 0])))) \<and>
   fst (set_data_buffer_ps6000a example_constants ok_driver ps6000a_init 0 1000 0 (INT16_T example_constants) 0 0)
          = Inr (CArray c_int16 (replicate 1000 0)) \<and>
   accepted example_constants (status (ok_driver (trace ps5000a_init) (Call (unit_prefix_n ps5000a_init @ ''SetDataBuffer'')
       [AInt (handle ps5000a_init), AInt 0, ARef, AInt 1000, AInt 0, AInt 0]))) \<and>
   fst (set_data_buffer_ps5000a example_constants ok_driver ps5000a_init 0 1000 0 0)
          = Inr (CArray c_int16 (replicate 1000 0)) \<and>
   length (replicate 1000 (0::int)) = 1000 \<and>
   7 \<notin> {INT8_T example_constants, INT16_T example_constants, INT32_T example_constants,
         INT64_T example_constants, UINT32_T example_constants} \<and>
   set_data_buffer_ps6000a example_constants ok_driver ps6000a_init 0 1000 0 7 0 0
          = (Inl (PicoSDKException ''Invalid datatype selected for buffer''), ps6000a_init)"
proof -
  have a: "accepted example_constants (status (ok_driver tr c))" for tr c
    by (simp add: ok_driver_def accepted_example_0)
  have d: "INT8_T example_constants \<noteq> INT16_T example_constants"
    "7 \<notin> {INT8_T example_constants, INT16_T example_constants, INT32_T example_constants,
         INT64_T example_constants, UINT32_T example_constants}"
    by (simp_all add: example_constants_def)
  show ?thesis
    using set_data_buffer_allocation [of 1000 example_constants ok_driver ps6000a_init 0 0 0 0 7]
      set_data_buffer_allocation [of 1000 example_constants ok_driver ps5000a_init 0 0 0 0 7]
      a d
    by simp
qed

text \<open>Disabling a channel never removes its key from the range table, and the dictionary
  returned by \<open>set_data_buffer_for_enabled_channels\<close> has exactly the keys of the range
  table.\<close>

lemma ps6000a_disable_keeps_range_table:
  "range_dict (snd (ps6000a_set_channel K drv s channel rng False coupling offset bandwidth)) =
     range_dict s"
  by (simp add: ps6000a_set_channel_def set_channel_off_def native_def Let_def)

lemma ps5000a_disable_records_range:
  "map_of (range_dict (snd (ps5000a_set_channel K drv s channel rng False coupling offset)))
      channel = Some rng"
  by (simp add: ps5000a_set_channel_def set_channel_base_def native_def Let_def)

lemma enabled_loop_ps6000a_keys:
  assumes "fst (enabled_loop_ps6000a K drv samples segment datatype ratio_mode action chs acc s) = Inr m"
  shows "fst ` set m = fst ` set acc \<union> set chs"
  using assms
proof (induction chs arbitrary: acc s)
  case Nil
  then show ?case by simp
next
  case (Cons ch chs)
  then show ?case
    by (auto simp: py_setitem_def dom_update split: prod.splits sum.splits)
qed

lemma enabled_loop_ps5000a_keys:
  assumes "fst (enabled_loop_ps5000a K drv samples segment ratio_mode chs acc s) = Inr m"
  shows "fst ` set m = fst ` set acc \<union> set chs"
  using assms
proof (induction chs arbitrary: acc s)
  case Nil
  then show ?case by simp
next
  case (Cons ch chs)
  then show ?case
    by (auto simp: py_setitem_def dom_update split: prod.splits sum.splits)
qed

lemma allocation_covers_range_table:
  "fst (ps6000a_set_data_buffer_for_enabled_channels K drv s samples segment datatype ratio_mode action) = Inr m
     \<Longrightarrow> fst ` set m = fst ` set (range_dict s)"
  "fst (ps5000a_set_data_buffer_for_enabled_channels K drv s samples segment ratio_mode) = Inr m'
     \<Longrightarrow> fst ` set m' = fst ` set (range_dict s)"
  using enabled_loop_ps6000a_keys [of K drv samples segment "datatype" ratio_mode action "map fst (range_dict s)" "[]" s m]
    enabled_loop_ps5000a_keys [of K drv samples segment ratio_mode "map fst (range_dict s)" "[]" s m']
  by (simp_all add: ps6000a_set_data_buffer_for_enabled_channels_def
      ps5000a_set_data_buffer_for_enabled_channels_def)

text \<open>
  Claim C3 does not hold of the code. On a ps6000a session \<open>set_channel\<close> with
  \<open>enabled = False\<close> leaves the range table alone, and on a ps5000a session it even records the
  range; \<open>set_data_buffer_for_enabled_channels\<close> visits every key of the range table. So a
  channel that was enabled and then disabled (ps6000a), or only ever disabled (ps5000a), is
  still a key of the dictionary returned.
\<close>

theorem disabled_channel_still_allocated:
  "fst (ps6000a_set_data_buffer_for_enabled_channels example_constants ok_driver
          (snd (ps6000a_set_channel example_constants ok_driver
             (snd (ps6000a_set_channel example_constants ok_driver ps6000a_init 0 5 True 0 0 0))
             0 5 False 0 0 0))
          4 0 1 0 0)
     = Inr [(0, CArray c_int16 [0, 0, 0, 0])] \<and>
   fst (ps5000a_set_data_buffer_for_enabled_channels example_constants ok_driver
          (snd (ps5000a_set_channel example_constants ok_driver ps5000a_init 0 5 False 0 0))
          4 0 0)
     = Inr [(0, CArray c_int16 [0, 0, 0, 0])]"
  by (simp add: ps6000a_set_data_buffer_for_enabled_channels_def
      ps5000a_set_data_buffer_for_enabled_channels_def ps6000a_set_channel_def
      ps5000a_set_channel_def set_channel_on_def set_channel_off_def set_channel_base_def
      set_data_buffer_ps6000a_def set_data_buffer_ps5000a_def ctype_of_datatype_def new_array_def
      bind_err_def call_attr_function_def native_def get_attr_function_def unwritten_def Let_def
      error_handler_def example_constants_def ok_driver_def ps6000a_init_def ps5000a_init_def
      PicoScopeBase_init_def py_setitem_def numeral_eq_Suc)


section \<open>Properties of the bulk conversions\<close>

lemma update_map_marked:
  assumes "distinct (map fst d)" "map_of d k = Some b" "k \<notin> ks"
  shows "map (\<lambda>(ch, x). (ch, if ch \<in> ks then g ch x else x)) (AList.update k (g k b) d) =
         map (\<lambda>(ch, x). (ch, if ch \<in> insert k ks then g ch x else x)) d"
  using assms
proof (induction d)
  case Nil
  then show ?case by simp
next
  case (Cons p d)
  obtain c x where p: "p = (c, x)" by (cases p)
  show ?case
  proof (cases "c = k")
    case True
    with Cons.prems p have bx: "x = b" and notin: "k \<notin> fst ` set d" by auto
    have "map (\<lambda>(ch, x). (ch, if ch \<in> ks then g ch x else x)) d =
          map (\<lambda>(ch, x). (ch, if ch \<in> insert k ks then g ch x else x)) d"
      using notin by (intro map_cong) (auto simp: image_iff)
    with True p bx Cons.prems(3) show ?thesis by simp
  next
    case False
    with Cons p show ?thesis by simp
  qed
qed

lemma map_of_key_Some:
  assumes "k \<in> fst ` set d"
  obtains b where "map_of d k = Some b"
  using assms by (cases "map_of d k") (auto simp: map_of_eq_None_iff)

lemma map_unmarked: "map (\<lambda>(ch, x). (ch, if ch \<in> set [] then g ch x else x)) d = d"
  by (induction d) auto

lemma ctype_to_list_loop_result:
  assumes "distinct (map fst (h r))" "distinct ks" "set ks \<subseteq> fst ` set (h r)"
  shows "ctype_to_list_loop r ks h =
           (Inr (), h(r := map (\<lambda>(ch, x). (ch, if ch \<in> set ks then buffer_ctypes_to_list x else x)) (h r)))"
  using assms
proof (induction ks arbitrary: h)
  case Nil
  show ?case using map_unmarked [of "\<lambda>ch. buffer_ctypes_to_list" "h r"] by simp
next
  case (Cons k ks)
  from Cons.prems obtain b where b: "map_of (h r) k = Some b"
    using map_of_key_Some [of k "h r"] by auto
  define h1 where "h1 = h(r := py_setitem (h r) k (buffer_ctypes_to_list b))"
  have d1: "distinct (map fst (h1 r))"
    using Cons.prems(1) by (simp add: h1_def py_setitem_def distinct_update)
  have k1: "set ks \<subseteq> fst ` set (h1 r)"
    using Cons.prems(3) by (auto simp: h1_def py_setitem_def dom_update)
  have ks: "distinct ks" "k \<notin> set ks" using Cons.prems(2) by auto
  have "ctype_to_list_loop r (k # ks) h = ctype_to_list_loop r ks h1"
    using b by (simp add: py_getitem_def h1_def)
  also have "\<dots> = (Inr (), h1(r := map (\<lambda>(ch, x). (ch, if ch \<in> set ks then buffer_ctypes_to_list x else x)) (h1 r)))"
    by (rule Cons.IH [of h1, OF d1 ks(1) k1])
  also have "map (\<lambda>(ch, x). (ch, if ch \<in> set ks then buffer_ctypes_to_list x else x)) (h1 r) =
             map (\<lambda>(ch, x). (ch, if ch \<in> insert k (set ks) then buffer_ctypes_to_list x else x)) (h r)"
    using update_map_marked [OF Cons.prems(1) b ks(2), of "\<lambda>ch. buffer_ctypes_to_list"]
    by (simp add: py_setitem_def h1_def)
  finally show ?case by (simp only: h1_def fun_upd_upd list.set)
qed

lemma adc_to_mv_loop_result:
  assumes "distinct (map fst (h r))" "distinct ks" "set ks \<subseteq> fst ` set (h r)"
    and "\<And>ch b. ch \<in> set ks \<Longrightarrow> map_of (h r) ch = Some b \<Longrightarrow> buffer_adc_to_mv K s b ch = Inr (g ch b)"
  shows "adc_to_mv_loop K s r ks h =
           (Inr (), h(r := map (\<lambda>(ch, x). (ch, if ch \<in> set ks then g ch x else x)) (h r)))"
  using assms
proof (induction ks arbitrary: h)
  case Nil
  show ?case using map_unmarked [of g "h r"] by simp
next
  case (Cons k ks)
  from Cons.prems obtain b where b: "map_of (h r) k = Some b"
    using map_of_key_Some [of k "h r"] by auto
  have conv: "buffer_adc_to_mv K s b k = Inr (g k b)"
    using Cons.prems(4) [of k b] b by simp
  define h1 where "h1 = h(r := py_setitem (h r) k (g k b))"
  have d1: "distinct (map fst (h1 r))"
    using Cons.prems(1) by (simp add: h1_def py_setitem_def distinct_update)
  have k1: "set ks \<subseteq> fst ` set (h1 r)"
    using Cons.prems(3) by (auto simp: h1_def py_setitem_def dom_update)
  have ks: "distinct ks" "k \<notin> set ks" using Cons.prems(2) by auto
  have rest: "buffer_adc_to_mv K s b' ch = Inr (g ch b')"
    if "ch \<in> set ks" "map_of (h1 r) ch = Some b'" for ch b'
  proof -
    from that ks(2) have "ch \<noteq> k" by auto
    with that(2) have "map_of (h r) ch = Some b'"
      by (simp add: h1_def py_setitem_def update_conv')
    with Cons.prems(4) [of ch b'] that(1) show ?thesis by simp
  qed
  have "adc_to_mv_loop K s r (k # ks) h = adc_to_mv_loop K s r ks h1"
    using b conv by (simp add: py_getitem_def bind_err_def h1_def)
  also have "\<dots> = (Inr (), h1(r := map (\<lambda>(ch, x). (ch, if ch \<in> set ks then g ch x else x)) (h1 r)))"
    by (rule Cons.IH [of h1, OF d1 ks(1) k1 rest])
  also have "map (\<lambda>(ch, x). (ch, if ch \<in> set ks then g ch x else x)) (h1 r) =
             map (\<lambda>(ch, x). (ch, if ch \<in> insert k (set ks) then g ch x else x)) (h r)"
    using update_map_marked [OF Cons.prems(1) b ks(2), of g]
    by (simp add: py_setitem_def h1_def)
  finally show ?case by (simp only: h1_def fun_upd_upd list.set)
qed

lemma map_all_marked:
  "map (\<lambda>(ch, x). (ch, if ch \<in> fst ` set d then g ch x else x)) d = map (\<lambda>(ch, x). (ch, g ch x)) d"
proof (rule map_cong)
  fix p assume "p \<in> set d"
  then have "fst p \<in> fst ` set d" by simp
  then show "(case p of (ch, x) \<Rightarrow> (ch, if ch \<in> fst ` set d then g ch x else x)) =
             (case p of (ch, x) \<Rightarrow> (ch, g ch x))"
    by (cases p) simp
qed simp

text \<open>
  Claim C10. For every dictionary object \<open>r\<close> of the heap (its keys distinct, as a dictionary's
  are), \<open>buffer_ctype_to_list_for_multiple_channels\<close> returns the reference \<open>r\<close> it was given and
  leaves the heap as it was except at \<open>r\<close>, where each channel's entry is now the list made from
  its buffer; and when the conversion of every channel's buffer succeeds, with result \<open>g ch b\<close>
  for channel \<open>ch\<close> and buffer \<open>b\<close>, \<open>buffer_adc_to_mv_multiple_channels\<close> likewise returns \<open>r\<close>
  with each entry replaced by the converted list. The keys and their order are unchanged; the
  raw buffers are no longer entries of the dictionary.
\<close>

theorem bulk_conversion_in_place:
  assumes "distinct (map fst (h r))"
  shows "buffer_ctype_to_list_for_multiple_channels h r =
           (Inr r, h(r := map (\<lambda>(ch, b). (ch, buffer_ctypes_to_list b)) (h r))) \<and>
         ((\<forall>(ch, b) \<in> set (h r). buffer_adc_to_mv K s b ch = Inr (g ch b)) \<longrightarrow>
          buffer_adc_to_mv_multiple_channels K s h r =
           (Inr r, h(r := map (\<lambda>(ch, b). (ch, g ch b)) (h r))))"
proof (intro conjI impI)
  have "ctype_to_list_loop r (map fst (h r)) h =
          (Inr (), h(r := map (\<lambda>(ch, x). (ch, if ch \<in> fst ` set (h r) then buffer_ctypes_to_list x else x)) (h r)))"
    using ctype_to_list_loop_result [of h r "map fst (h r)"] assms by simp
  then show "buffer_ctype_to_list_for_multiple_channels h r =
           (Inr r, h(r := map (\<lambda>(ch, b). (ch, buffer_ctypes_to_list b)) (h r)))"
    unfolding buffer_ctype_to_list_for_multiple_channels_def map_all_marked by simp
next
  assume a: "\<forall>(ch, b) \<in> set (h r). buffer_adc_to_mv K s b ch = Inr (g ch b)"
  have "buffer_adc_to_mv K s b ch = Inr (g ch b)" if "map_of (h r) ch = Some b" for ch b
    using a map_of_SomeD [OF that] by auto
  then have "adc_to_mv_loop K s r (map fst (h r)) h =
          (Inr (), h(r := map (\<lambda>(ch, x). (ch, if ch \<in> fst ` set (h r) then g ch x else x)) (h r)))"
    using adc_to_mv_loop_result [of h r "map fst (h r)" K s g] assms by simp
  then show "buffer_adc_to_mv_multiple_channels K s h r =
           (Inr r, h(r := map (\<lambda>(ch, b). (ch, g ch b)) (h r)))"
    unfolding buffer_adc_to_mv_multiple_channels_def map_all_marked by simp
qed

lemma buffer_adc_to_mv_example:
  "buffer_adc_to_mv example_constants example_session (CArray c_int16 [0, 16256]) 0 =
     Inr (PyList [PyFloat 0, PyFloat 250])"
  by code_simp

theorem bulk_conversion_in_place_witness:
  "distinct (map fst (example_heap 7)) \<and>
   buffer_ctype_to_list_for_multiple_channels example_heap 7 =
     (Inr 7, example_heap(7 := [(0, PyList [PyInt 0, PyInt 16256])])) \<and>
   buffer_adc_to_mv example_constants example_session (CArray c_int16 [0, 16256]) 0 =
     Inr (PyList [PyFloat 0, PyFloat 250]) \<and>
   buffer_adc_to_mv_multiple_channels example_constants example_session example_heap 7 =
     (Inr 7, example_heap(7 := [(0, PyList [PyFloat 0, PyFloat 250])]))"
proof -
  have d: "distinct (map fst (example_heap 7))" by (simp add: example_heap_def)
  have e: "example_heap 7 = [(0, CArray c_int16 [0, 16256])]" by (simp add: example_heap_def)
  show ?thesis
    using bulk_conversion_in_place [of example_heap 7 example_constants example_session
        "\<lambda>ch b. PyList [PyFloat 0, PyFloat 250]"] buffer_adc_to_mv_example d
    by (simp add: e buffer_ctypes_to_list_def elements_def)
qed

section \<open>Properties of binary64 rounding\<close>

text \<open>\<open>ilog2\<close> is the binary exponent, rounding moves a value by at most half a unit in the
  last place, integers up to \<open>2 ^ 53\<close> are represented exactly, and in the normal range \<open>fl\<close>
  is \<open>round53\<close>.\<close>

lemma bitlen_powi_bounds:
  assumes "0 < n"
  shows "(2::rat) powi (bitlen n - 1) \<le> of_int n" "of_int n < (2::rat) powi (bitlen n)"
proof -
  from bitlen_bounds [OF assms] have lo: "2 ^ nat (bitlen n - 1) \<le> n" and hi: "n < 2 ^ nat (bitlen n)"
    by auto
  have b1: "1 \<le> bitlen n" using assms by (simp add: bitlen_alt_def)
  have "(2::rat) powi (bitlen n - 1) = 2 ^ nat (bitlen n - 1)"
    using b1 by (simp add: power_int_def)
  also have "\<dots> = of_int (2 ^ nat (bitlen n - 1))" by simp
  also have "\<dots> \<le> of_int n" using lo by (simp only: of_int_le_iff)
  finally show "(2::rat) powi (bitlen n - 1) \<le> of_int n" .
  have "(of_int n :: rat) < of_int (2 ^ nat (bitlen n))" using hi by (simp only: of_int_less_iff)
  also have "\<dots> = 2 powi (bitlen n)" using b1 by (simp add: power_int_def)
  finally show "of_int n < (2::rat) powi (bitlen n)" .
qed

lemma ilog2_bounds:
  assumes "x \<noteq> 0"
  shows "2 powi (ilog2 x) \<le> \<bar>x\<bar>" "\<bar>x\<bar> < 2 powi (ilog2 x + 1)"
proof -
  obtain n d where q: "quotient_of \<bar>x\<bar> = (n, d)" by (cases "quotient_of \<bar>x\<bar>")
  have d: "0 < d" using quotient_of_denom_pos [OF q] .
  have x: "\<bar>x\<bar> = of_int n / of_int d" using quotient_of_div [OF q] .
  have n: "0 < n"
  proof -
    have "0 < \<bar>x\<bar>" using assms by simp
    then have "0 < (of_int n :: rat) / of_int d" using x by simp
    then show ?thesis using d by (simp add: zero_less_divide_iff)
  qed
  define k where "k = bitlen n - bitlen d"
  note bn = bitlen_powi_bounds [OF n] and bd = bitlen_powi_bounds [OF d]
  have dpos: "(0::rat) < of_int d" using d by simp
  have up: "\<bar>x\<bar> < 2 powi (k + 1)"
  proof -
    have "of_int n < (2::rat) powi (k + 1) * 2 powi (bitlen d - 1)"
      using bn(2) by (simp add: k_def flip: power_int_add)
    also have "\<dots> \<le> 2 powi (k + 1) * of_int d"
      using bd(1) by (intro mult_left_mono) auto
    finally show ?thesis using dpos by (simp add: x pos_divide_less_eq)
  qed
  have lo: "2 powi (k - 1) < \<bar>x\<bar>"
  proof -
    have "(2::rat) powi (k - 1) * of_int d < 2 powi (k - 1) * 2 powi (bitlen d)"
      using bd(2) by (intro mult_strict_left_mono) auto
    also have "\<dots> = 2 powi (bitlen n - 1)"
      by (simp add: k_def flip: power_int_add)
    also have "\<dots> \<le> of_int n" using bn(1) .
    finally show ?thesis using dpos by (simp add: x pos_less_divide_eq)
  qed
  have e: "ilog2 x = (if 2 powi k \<le> \<bar>x\<bar> then k else k - 1)"
    by (simp add: ilog2_def q k_def Let_def)
  show "2 powi (ilog2 x) \<le> \<bar>x\<bar>" using lo by (simp add: e)
  show "\<bar>x\<bar> < 2 powi (ilog2 x + 1)" using up by (simp add: e not_le)
qed

lemma round_half_even_error: "\<bar>of_int (round_half_even y) - y\<bar> \<le> 1 / 2"
proof -
  have "of_int \<lfloor>y\<rfloor> \<le> y" "y < of_int \<lfloor>y\<rfloor> + 1" by linarith+
  then show ?thesis by (auto simp: round_half_even_def Let_def abs_le_iff)
qed

lemma round_half_even_of_int [simp]: "round_half_even (of_int n) = n"
  by (simp add: round_half_even_def)

lemma powi2_less_iff: "(2::rat) powi a < 2 powi b \<longleftrightarrow> a < b"
proof
  assume l: "(2::rat) powi a < 2 powi b"
  show "a < b"
  proof (rule ccontr)
    assume "\<not> a < b"
    then have "b \<le> a" by simp
    then have "(2::rat) powi b \<le> 2 powi a" by (intro power_int_increasing) auto
    with l show False by simp
  qed
next
  assume "a < b"
  then show "(2::rat) powi a < 2 powi b" by (intro power_int_strict_increasing) auto
qed

lemma powi2_le_iff: "(2::rat) powi a \<le> 2 powi b \<longleftrightarrow> a \<le> b"
  using powi2_less_iff [of b a] by (auto simp: not_less [symmetric])

lemma round53_error:
  assumes "x \<noteq> 0"
  shows "\<bar>round53 x - x\<bar> \<le> 2 powi (ilog2 x - 53)"
proof -
  define q :: rat where "q = 2 powi (ilog2 x - 52)"
  have q: "0 < q" by (simp add: q_def)
  have r: "round53 x = of_int (round_half_even (x / q)) * q"
    using assms by (simp add: round53_def q_def Let_def)
  have "round53 x - x = (of_int (round_half_even (x / q)) - x / q) * q"
    using q by (simp add: r left_diff_distrib)
  then have "\<bar>round53 x - x\<bar> = \<bar>of_int (round_half_even (x / q)) - x / q\<bar> * \<bar>q\<bar>"
    by (simp only: abs_mult)
  also have "\<dots> = \<bar>of_int (round_half_even (x / q)) - x / q\<bar> * q"
    using q by (simp only: abs_of_pos)
  finally have "\<bar>round53 x - x\<bar> = \<bar>of_int (round_half_even (x / q)) - x / q\<bar> * q" .
  also have "\<dots> \<le> 1 / 2 * q"
    using round_half_even_error [of "x / q"] q by (intro mult_right_mono) auto
  also have "\<dots> = 2 powi (ilog2 x - 53)"
    by (simp add: q_def power_int_diff)
  finally show ?thesis .
qed

lemma round53_rel_error: "\<bar>round53 x - x\<bar> \<le> \<bar>x\<bar> / 2 ^ 53"
proof (cases "x = 0")
  case True
  then show ?thesis by (simp add: round53_def)
next
  case False
  have "\<bar>round53 x - x\<bar> \<le> 2 powi (ilog2 x - 53)" by (rule round53_error [OF False])
  also have "\<dots> = 2 powi (ilog2 x) / 2 ^ 53" by (simp add: power_int_diff)
  also have "\<dots> \<le> \<bar>x\<bar> / 2 ^ 53"
    using ilog2_bounds(1) [OF False] by (intro divide_right_mono) auto
  finally show ?thesis .
qed

lemma round53_exact_multiple:
  assumes "x \<noteq> 0" "x / 2 powi (ilog2 x - 52) = of_int m"
  shows "round53 x = x"
proof -
  have "round53 x = of_int m * 2 powi (ilog2 x - 52)"
    using assms by (simp add: round53_def Let_def)
  also have "\<dots> = x" using assms(2) [symmetric] by simp
  finally show ?thesis .
qed

lemma round53_of_int:
  assumes "\<bar>k\<bar> \<le> 2 ^ 53"
  shows "round53 (of_int k) = of_int k"
proof (cases "k = 0")
  case True
  then show ?thesis by (simp add: round53_def)
next
  case False
  define e where "e = ilog2 (of_int k)"
  have nz: "(of_int k :: rat) \<noteq> 0" using False by simp
  have "2 powi e \<le> \<bar>of_int k :: rat\<bar>" unfolding e_def by (rule ilog2_bounds(1) [OF nz])
  also have "\<dots> = of_int \<bar>k\<bar>" by simp
  also have "\<dots> \<le> of_int (2 ^ 53)" using assms by (simp only: of_int_le_iff)
  also have "\<dots> = 2 powi 53" by simp
  finally have e53: "e \<le> 53" by (simp only: powi2_le_iff)
  show ?thesis
  proof (cases "e \<le> 52")
    case True
    have "of_int k / (2::rat) powi (e - 52) = of_int k * 2 powi (52 - e)"
      by (simp add: power_int_diff)
    also have "\<dots> = of_int k * of_int (2 ^ nat (52 - e))"
      using True by (simp add: power_int_def)
    also have "\<dots> = of_int (k * 2 ^ nat (52 - e))" by simp
    finally show ?thesis
      using round53_exact_multiple [OF nz, of "k * 2 ^ nat (52 - e)"] by (simp add: e_def)
  next
    case False
    with e53 have e: "e = 53" by simp
    have "(2::rat) powi 53 \<le> \<bar>of_int k\<bar>"
      using ilog2_bounds(1) [OF nz] by (simp add: e_def [symmetric] e)
    then have "(of_int (2 ^ 53) :: rat) \<le> of_int \<bar>k\<bar>" by simp
    then have "2 ^ 53 \<le> \<bar>k\<bar>" by (simp only: of_int_le_iff)
    with assms have ak: "\<bar>k\<bar> = 2 ^ 53" by simp
    then consider "k = 2 ^ 53" | "k = - (2 ^ 53)" by linarith
    then show ?thesis
    proof cases
      case 1
      then have "of_int k / (2::rat) powi (e - 52) = of_int (2 ^ 52)" by (simp add: e)
      then show ?thesis
        using round53_exact_multiple [OF nz, of "2 ^ 52"] by (simp only: e_def)
    next
      case 2
      then have "of_int k / (2::rat) powi (e - 52) = of_int (- (2 ^ 52))" by (simp add: e)
      then show ?thesis
        using round53_exact_multiple [OF nz, of "- (2 ^ 52)"] by (simp only: e_def)
    qed
  qed
qed

lemma fl_normal:
  assumes "2 powi (- 1022) \<le> \<bar>x\<bar>" "\<bar>x\<bar> \<le> 2 powi 1022"
  shows "fl x = Inr (round53 x)"
proof -
  have nz: "x \<noteq> 0" using assms(1) by auto
  have "(2::rat) powi (- 1022) < 2 powi (ilog2 x + 1)"
    using assms(1) ilog2_bounds(2) [OF nz] by simp
  then have lo: "- 1022 \<le> ilog2 x" by (simp only: powi2_less_iff)
  have "\<bar>round53 x\<bar> \<le> \<bar>x\<bar> + \<bar>x\<bar> / 2 ^ 53" using round53_rel_error [of x] by linarith
  also have "\<dots> \<le> \<bar>x\<bar> + \<bar>x\<bar>" by (simp add: field_simps)
  also have "\<dots> \<le> 2 * 2 powi 1022" using assms(2) by simp
  also have "\<dots> = 2 powi 1023" by (simp add: power_int_def)
  finally have r: "\<bar>round53 x\<bar> \<le> 2 powi 1023" .
  have rnz: "round53 x \<noteq> 0"
  proof
    assume "round53 x = 0"
    with round53_rel_error [of x] have "\<bar>x\<bar> \<le> \<bar>x\<bar> / 2 ^ 53" by simp
    then show False using nz by (simp add: field_simps)
  qed
  have hi: "ilog2 (round53 x) \<le> 1023"
  proof -
    from ilog2_bounds(1) [OF rnz] r have "(2::rat) powi ilog2 (round53 x) \<le> 2 powi 1023" by simp
    then show ?thesis by (simp only: powi2_le_iff)
  qed
  show ?thesis using nz lo hi by (simp add: fl_def)
qed

lemma fl_zero [simp]: "fl 0 = Inr 0"
  by (simp add: fl_def)

lemma fl_of_int:
  assumes "\<bar>k\<bar> \<le> 2 ^ 53"
  shows "fl (of_int k) = Inr (of_int k)"
proof (cases "k = 0")
  case True
  then show ?thesis by simp
next
  case False
  then have "1 \<le> \<bar>k\<bar>" by simp
  then have "(1::rat) \<le> of_int \<bar>k\<bar>" by (simp only: of_int_1_le_iff)
  then have k1: "(1::rat) \<le> \<bar>of_int k\<bar>" by simp
  have "(2::rat) powi (- 1022) \<le> 2 powi 0" by (simp add: powi2_le_iff)
  then have lo: "2 powi (- 1022) \<le> \<bar>of_int k :: rat\<bar>" using k1 by simp
  have "(of_int \<bar>k\<bar> :: rat) \<le> of_int (2 ^ 53)" using assms by (simp only: of_int_le_iff)
  then have "\<bar>of_int k :: rat\<bar> \<le> 2 powi 53" by simp
  also have "(2::rat) powi 53 \<le> 2 powi 1022" by (simp add: powi2_le_iff)
  finally have hi: "\<bar>of_int k :: rat\<bar> \<le> 2 powi 1022" .
  show ?thesis using fl_normal [OF lo hi] round53_of_int [OF assms] by simp
qed

lemma close_bounds:
  fixes x y e :: rat
  assumes "\<bar>x - y\<bar> \<le> e * \<bar>y\<bar>" "e \<le> 1 / 2"
  shows "\<bar>y\<bar> / 2 \<le> \<bar>x\<bar>" "\<bar>x\<bar> \<le> 2 * \<bar>y\<bar>"
proof -
  have "e * \<bar>y\<bar> \<le> 1 / 2 * \<bar>y\<bar>" using assms(2) by (intro mult_right_mono) auto
  with assms(1) have d: "\<bar>x - y\<bar> \<le> \<bar>y\<bar> / 2" by simp
  show "\<bar>y\<bar> / 2 \<le> \<bar>x\<bar>" using d by linarith
  show "\<bar>x\<bar> \<le> 2 * \<bar>y\<bar>" using d by linarith
qed

lemma round53_close:
  fixes x y e :: rat
  assumes "\<bar>x - y\<bar> \<le> e * \<bar>y\<bar>" "e \<le> 1 / 2"
  shows "\<bar>round53 x - y\<bar> \<le> (e + 1 / 2 ^ 52) * \<bar>y\<bar>"
proof -
  have "\<bar>round53 x - x\<bar> \<le> \<bar>x\<bar> / 2 ^ 53" by (rule round53_rel_error)
  also have "\<dots> \<le> (2 * \<bar>y\<bar>) / 2 ^ 53"
    using close_bounds(2) [OF assms] by (intro divide_right_mono) auto
  also have "\<dots> = 1 / 2 ^ 52 * \<bar>y\<bar>" by simp
  finally have "\<bar>round53 x - x\<bar> \<le> 1 / 2 ^ 52 * \<bar>y\<bar>" .
  moreover have "\<bar>round53 x - y\<bar> \<le> \<bar>round53 x - x\<bar> + \<bar>x - y\<bar>" by linarith
  ultimately have "\<bar>round53 x - y\<bar> \<le> 1 / 2 ^ 52 * \<bar>y\<bar> + e * \<bar>y\<bar>" using assms(1) by linarith
  then show ?thesis by (simp add: distrib_right)
qed

lemma close_mult:
  fixes x y e z :: rat
  assumes "\<bar>x - y\<bar> \<le> e * \<bar>y\<bar>"
  shows "\<bar>x * z - y * z\<bar> \<le> e * \<bar>y * z\<bar>"
proof -
  have "\<bar>x * z - y * z\<bar> = \<bar>x - y\<bar> * \<bar>z\<bar>" by (simp add: abs_mult left_diff_distrib [symmetric])
  also have "\<dots> \<le> e * \<bar>y\<bar> * \<bar>z\<bar>" using assms by (intro mult_right_mono) auto
  finally show ?thesis by (simp add: abs_mult mult.assoc)
qed

lemma close_div:
  fixes x y e z :: rat
  assumes "\<bar>x - y\<bar> \<le> e * \<bar>y\<bar>"
  shows "\<bar>x / z - y / z\<bar> \<le> e * \<bar>y / z\<bar>"
  using close_mult [OF assms, of "1 / z"] by simp

lemma fl_close:
  fixes x y e :: rat
  assumes "\<bar>x - y\<bar> \<le> e * \<bar>y\<bar>" "e \<le> 1 / 2"
    and "2 powi (- 1000) \<le> \<bar>y\<bar>" "\<bar>y\<bar> \<le> 2 powi 1000"
  shows "fl x = Inr (round53 x)" "\<bar>round53 x - y\<bar> \<le> (e + 1 / 2 ^ 52) * \<bar>y\<bar>"
proof -
  have "(2::rat) powi (- 1022) \<le> 2 powi (- 1001)" by (simp add: powi2_le_iff)
  also have "\<dots> = 2 powi (- 1000) / 2" by (simp add: power_int_diff [of 2 "- 1000" 1, simplified])
  also have "\<dots> \<le> \<bar>y\<bar> / 2" using assms(3) by simp
  also have "\<dots> \<le> \<bar>x\<bar>" by (rule close_bounds(1) [OF assms(1,2)])
  finally have lo: "2 powi (- 1022) \<le> \<bar>x\<bar>" .
  have "\<bar>x\<bar> \<le> 2 * \<bar>y\<bar>" by (rule close_bounds(2) [OF assms(1,2)])
  also have "\<dots> \<le> 2 * 2 powi 1000" using assms(4) by simp
  also have "\<dots> = 2 powi 1001" by (simp add: power_int_add [of 2 1000 1, simplified])
  also have "\<dots> \<le> 2 powi 1022" by (simp add: powi2_le_iff)
  finally have hi: "\<bar>x\<bar> \<le> 2 powi 1022" .
  show "fl x = Inr (round53 x)" by (rule fl_normal [OF lo hi])
  show "\<bar>round53 x - y\<bar> \<le> (e + 1 / 2 ^ 52) * \<bar>y\<bar>" by (rule round53_close [OF assms(1,2)])
qed

lemma int_of_float_near:
  assumes "\<bar>x - of_int n\<bar> < 1"
  shows "\<bar>int_of_float x - n\<bar> \<le> 1"
proof -
  from assms have b: "of_int n - 1 < x" "x < of_int n + 1" by linarith+
  have "n - 1 \<le> \<lfloor>x\<rfloor>" using b(1) by linarith
  moreover have "\<lfloor>x\<rfloor> \<le> n" using b(2) by linarith
  moreover have "n \<le> \<lceil>x\<rceil>" using b(1) by linarith
  moreover have "\<lceil>x\<rceil> \<le> n + 1" using b(2) by linarith
  ultimately show ?thesis by (simp add: int_of_float_def)
qed

section \<open>Properties of the block capture\<close>

lemma powi2_minus7: "(2::rat) powi (- 7) = 1 / 128"
  by (simp add: power_int_minus inverse_eq_divide)

lemma int_of_float_floor: "0 \<le> x \<Longrightarrow> int_of_float x = \<lfloor>x\<rfloor>"
  by (simp add: int_of_float_def)

lemma truediv_100_truncates:
  assumes "0 \<le> x" "x < 100 * 2 ^ 47"
  shows "py_truediv (PyInt x) (PyInt 100) = Inr (round53 (of_int x / 100)) \<and>
         int_of_float (round53 (of_int x / 100)) = x div 100"
proof (cases "x = 0")
  case True
  then show ?thesis by (simp add: py_truediv_def fl_def round53_def int_of_float_def)
next
  case False
  define y :: rat where "y = of_int x / 100"
  define k where "k = x div 100"
  define r where "r = x mod 100"
  have xr: "x = 100 * k + r" and r: "0 \<le> r" "r < 100" by (simp_all add: k_def r_def)
  have k0: "0 \<le> k" using assms(1) by (simp add: k_def pos_imp_zdiv_nonneg_iff)
  have x1: "1 \<le> x" using False assms(1) by simp
  have ykr: "y = of_int k + of_int r / 100" by (simp add: y_def xr add_divide_distrib)
  have ylo: "1 / 100 \<le> y" using x1 by (simp add: y_def)
  have ypos: "0 < y" using ylo by simp
  have "(of_int x :: rat) < of_int (100 * 2 ^ 47)" using assms(2) by (simp only: of_int_less_iff)
  then have yhi: "y < 2 ^ 47" by (simp add: y_def)
  have ynz: "y \<noteq> 0" using ypos by simp
  have n1: "2 powi (- 1022) \<le> \<bar>y\<bar>"
  proof -
    have "(2::rat) powi (- 1022) \<le> 2 powi (- 7)" by (simp add: powi2_le_iff)
    also have "\<dots> \<le> 1 / 100" by (simp add: powi2_minus7)
    finally show ?thesis using ylo ypos by simp
  qed
  have n2: "\<bar>y\<bar> \<le> 2 powi 1022"
  proof -
    have "\<bar>y\<bar> \<le> 2 powi 47" using yhi ypos by simp
    also have "\<dots> \<le> 2 powi 1022" by (simp add: powi2_le_iff)
    finally show ?thesis .
  qed
  have flok: "fl y = Inr (round53 y)" by (rule fl_normal [OF n1 n2])
  have "2 powi (ilog2 y) \<le> \<bar>y\<bar>" by (rule ilog2_bounds(1) [OF ynz])
  also have "\<bar>y\<bar> < 2 powi 47" using yhi ypos by simp
  finally have "ilog2 y < 47" by (simp only: powi2_less_iff)
  then have "ilog2 y - 53 \<le> - 7" by simp
  then have "(2::rat) powi (ilog2 y - 53) \<le> 2 powi (- 7)" by (simp only: powi2_le_iff)
  also have "\<dots> = 1 / 128" by (rule powi2_minus7)
  finally have "\<bar>round53 y - y\<bar> \<le> 1 / 128" using round53_error [OF ynz] by linarith
  then have err: "y - 1 / 128 \<le> round53 y" "round53 y \<le> y + 1 / 128" by linarith+
  have fl_k: "\<lfloor>round53 y\<rfloor> = k \<and> 0 \<le> round53 y"
  proof (cases "r = 0")
    case True
    then have yk: "y = of_int k" by (simp add: ykr)
    have "100 * k < 100 * 2 ^ 47" using xr r(1) assms(2) by linarith
    then have "\<bar>k\<bar> \<le> 2 ^ 53" using k0 by simp
    then have "round53 y = of_int k" by (simp only: yk round53_of_int)
    then show ?thesis using k0 by simp
  next
    case False
    then have "1 \<le> r" "r \<le> 99" using r by simp_all
    then have "(1::rat) \<le> of_int r" "(of_int r :: rat) \<le> 99" by simp_all
    then have "of_int k + 1 / 100 \<le> y" "y \<le> of_int k + 99 / 100" by (simp_all add: ykr)
    with err have b: "of_int k < round53 y" "round53 y < of_int k + 1" by simp_all
    then have "\<lfloor>round53 y\<rfloor> = k" by (intro floor_unique) simp_all
    moreover have "(0::rat) \<le> of_int k" using k0 by simp
    then have "0 \<le> round53 y" using b(1) by linarith
    ultimately show ?thesis by simp
  qed
  have "py_truediv (PyInt x) (PyInt 100) = fl y" by (simp add: py_truediv_def y_def)
  with flok fl_k show ?thesis by (simp add: int_of_float_floor y_def k_def)
qed

lemma pre_samples_of_truncates:
  assumes "0 \<le> samples * pct" "samples * pct < 100 * 2 ^ 47"
  shows "pre_samples_of samples pct = Inr (samples * pct div 100)"
  using truediv_100_truncates [OF assms] by (simp add: pre_samples_of_def bind_err_def)

lemma error_handler_trace_nth:
  assumes "i < length (trace s)"
  shows "trace (snd (error_handler K drv s st)) ! i = trace s ! i"
  using assms by (simp add: error_handler_def close_unit_trace nth_append split: option.splits)

lemma call_attr_function_issues_call:
  "trace (snd (call_attr_function K drv s name args unwritten)) ! length (trace s) =
     Call (unit_prefix_n s @ name) args"
proof -
  define s1 where "s1 = s\<lparr>trace := trace s @ [Call (unit_prefix_n s @ name) args]\<rparr>"
  define st where "st = status (drv (trace s) (Call (unit_prefix_n s @ name) args))"
  have "snd (call_attr_function K drv s name args unwritten) = snd (error_handler K drv s1 st)"
    by (simp add: call_attr_function_def native_def get_attr_function_def Let_def unwritten_def
        s1_def st_def split: prod.splits sum.splits)
  moreover have "trace (snd (error_handler K drv s1 st)) ! length (trace s) = trace s1 ! length (trace s)"
    by (rule error_handler_trace_nth) (simp add: s1_def)
  ultimately show ?thesis by (simp add: s1_def)
qed

text \<open>
  Claim C4, as amended. For every sample count \<open>samples \<ge> 0\<close> and every percentage in
  \<open>[0, 100]\<close> with \<open>samples * pre_trig_percent < 100 * 2 ^ 47\<close> (a quotient below \<open>2 ^ 47\<close>),
  \<open>run_block_capture\<close> passes to
  \<open>RunBlock\<close> the pre-trigger count \<open>samples * pre_trig_percent div 100\<close> (the truncated
  quotient) and the post-trigger count \<open>samples\<close> minus that; the two add up to \<open>samples\<close>, the
  percentage 0 gives a pre-trigger count of 0 and the percentage 100 a post-trigger count of 0.
\<close>

theorem run_block_capture_split:
  assumes "0 \<le> samples" "0 \<le> pre_trig_percent" "pre_trig_percent \<le> 100"
    and "samples * pre_trig_percent < 100 * 2 ^ 47"
  shows "pre_samples_of samples pre_trig_percent = Inr (samples * pre_trig_percent div 100) \<and>
         trace (snd (run_block_capture K drv s timebase samples pre_trig_percent segment))
             ! length (trace s) =
           Call (unit_prefix_n s @ ''RunBlock'')
             [AInt (handle s), AInt (samples * pre_trig_percent div 100),
              AInt (samples - samples * pre_trig_percent div 100), AInt timebase, ARef,
              AInt segment, ANone, ANone] \<and>
         samples * pre_trig_percent div 100 + (samples - samples * pre_trig_percent div 100) = samples \<and>
         (pre_trig_percent = 0 \<longrightarrow> samples * pre_trig_percent div 100 = 0) \<and>
         (pre_trig_percent = 100 \<longrightarrow> samples - samples * pre_trig_percent div 100 = 0)"
proof -
  have nn: "0 \<le> samples * pre_trig_percent" using assms(1,2) by simp
  have pre: "pre_samples_of samples pre_trig_percent = Inr (samples * pre_trig_percent div 100)"
    by (rule pre_samples_of_truncates [OF nn assms(4)])
  have "snd (run_block_capture K drv s timebase samples pre_trig_percent segment) =
        snd (call_attr_function K drv s ''RunBlock''
               [AInt (handle s), AInt (samples * pre_trig_percent div 100),
                AInt (samples - samples * pre_trig_percent div 100), AInt timebase, ARef,
                AInt segment, ANone, ANone] unwritten)"
    by (simp add: run_block_capture_def pre Let_def split: prod.splits sum.splits)
  then show ?thesis using pre by (simp add: call_attr_function_issues_call)
qed

theorem run_block_capture_split_witness:
  "(0::int) \<le> 1000 \<and> (0::int) \<le> 100 \<and> (100::int) \<le> 100 \<and> (1000::int) * 100 < 100 * 2 ^ 47 \<and>
   pre_samples_of 1000 100 = Inr 1000 \<and>
   trace (snd (run_block_capture example_constants ok_driver ps6000a_init 3 1000 100 0))
       ! length (trace ps6000a_init) =
     Call ''ps6000aRunBlock'' [AInt 0, AInt 1000, AInt 0, AInt 3, ARef, AInt 0, ANone, ANone]"
  using run_block_capture_split [of 1000 100 example_constants ok_driver ps6000a_init 3 0]
  by (simp add: ps6000a_init_def PicoScopeBase_init_def)

text \<open>The claim as stated has no bound on the sample count. The quotient is a float, which is
  rounded to 53 bits before it is truncated: with \<open>2 ^ 53 + 1\<close> samples and the percentage 100
  the pre-trigger count is \<open>2 ^ 53\<close> and the post-trigger count is 1, not 0.\<close>

theorem run_block_capture_rounds_large_counts:
  "pre_samples_of 9007199254740993 100 = Inr 9007199254740992 \<and>
   trace (snd (run_block_capture example_constants ok_driver ps6000a_init 3 9007199254740993 100 0)) =
     [Call ''ps6000aRunBlock''
        [AInt 0, AInt 9007199254740992, AInt 1, AInt 3, ARef, AInt 0, ANone, ANone]]"
proof -
  have pre: "pre_samples_of 9007199254740993 100 = Inr 9007199254740992" by code_simp
  then show ?thesis
    by (simp add: run_block_capture_def call_attr_function_def native_def get_attr_function_def
        unwritten_def Let_def error_handler_def example_constants_def ok_driver_def
        ps6000a_init_def PicoScopeBase_init_def)
qed

text \<open>The bound is the least one: at \<open>100 * 2 ^ 47 + 99\<close> samples and the percentage 1 the
  quotient \<open>2 ^ 47 + 99 / 100\<close> is rounded up to \<open>2 ^ 47 + 1\<close>.\<close>

lemma pre_samples_of_first_rounded_up:
  "pre_samples_of 14073748835532899 1 = Inr 140737488355329 \<and>
   (14073748835532899::int) div 100 = 140737488355328"
  by code_simp

section \<open>Properties of the conversions\<close>

lemma powi2_numeral_le:
  "(2::rat) powi (- 1000) \<le> 1 / 2 ^ 31" "(2::rat) ^ 62 \<le> 2 powi 1000"
proof -
  have "(2::rat) powi (- 1000) \<le> 2 powi (- 31)" by (simp add: powi2_le_iff)
  also have "\<dots> = 1 / 2 ^ 31" by (simp add: power_int_minus inverse_eq_divide)
  finally show "(2::rat) powi (- 1000) \<le> 1 / 2 ^ 31" .
  have "(2::rat) ^ 62 = 2 powi 62" by simp
  also have "\<dots> \<le> 2 powi 1000" by (simp add: powi2_le_iff)
  finally show "(2::rat) ^ 62 \<le> 2 powi 1000" .
qed

lemma adc_round_trip_values:
  fixes code M R :: int
  assumes M: "0 < M" "M \<le> 2 ^ 31" and R: "0 < R" "R \<le> 2 ^ 31"
    and code: "code \<noteq> 0" "\<bar>code\<bar> \<le> 2 ^ 31"
  defines "y \<equiv> (of_int code :: rat) / of_int M"
  defines "q \<equiv> round53 y"
  defines "mv \<equiv> round53 (q * of_int R)"
  defines "b \<equiv> round53 (mv / of_int R)"
  defines "c4 \<equiv> round53 (b * of_int M)"
  shows "fl y = Inr q" "fl (q * of_int R) = Inr mv" "fl (mv / of_int R) = Inr b"
    "fl (b * of_int M) = Inr c4" "\<bar>c4 - of_int code\<bar> < 1"
proof -
  let ?c = "of_int code :: rat" and ?m = "of_int M :: rat" and ?r = "of_int R :: rat"
  have m: "1 \<le> ?m" "?m \<le> 2 ^ 31" using M by simp_all
  have r: "1 \<le> ?r" "?r \<le> 2 ^ 31" using R by simp_all
  have "1 \<le> \<bar>code\<bar>" using code(1) by simp
  then have "(1::rat) \<le> of_int \<bar>code\<bar>" by (simp only: of_int_1_le_iff)
  then have c1: "1 \<le> \<bar>?c\<bar>" by simp
  have "(of_int \<bar>code\<bar> :: rat) \<le> of_int (2 ^ 31)" using code(2) by (simp only: of_int_le_iff)
  then have c2: "\<bar>?c\<bar> \<le> 2 ^ 31" by simp
  have mpos: "0 < ?m" and rpos: "0 < ?r" using m r by simp_all
  have ay: "\<bar>y\<bar> = \<bar>?c\<bar> / ?m" using mpos by (simp add: y_def)
  have ylo: "1 / 2 ^ 31 \<le> \<bar>y\<bar>"
  proof -
    have "1 / 2 ^ 31 \<le> 1 / ?m" using m mpos by (simp add: field_simps)
    also have "\<dots> \<le> \<bar>?c\<bar> / ?m" using c1 mpos by (simp add: divide_right_mono)
    finally show ?thesis by (simp add: ay)
  qed
  have yhi: "\<bar>y\<bar> \<le> 2 ^ 31"
  proof -
    have "\<bar>?c\<bar> / ?m \<le> \<bar>?c\<bar> / 1" using m by (intro divide_left_mono) auto
    then show ?thesis using c2 by (simp add: ay)
  qed
  have y_range: "2 powi (- 1000) \<le> \<bar>y\<bar>" "\<bar>y\<bar> \<le> 2 powi 1000"
    using ylo yhi powi2_numeral_le by (auto intro: order_trans [where y = "(2::rat) ^ 31"])
  have ayr: "\<bar>y * ?r\<bar> = \<bar>y\<bar> * ?r" using rpos by (simp add: abs_mult)
  have yr_lo: "1 / 2 ^ 31 \<le> \<bar>y * ?r\<bar>"
  proof -
    have "\<bar>y\<bar> * 1 \<le> \<bar>y\<bar> * ?r" using r by (intro mult_left_mono) auto
    then show ?thesis using ylo by (simp add: ayr)
  qed
  have yr_hi: "\<bar>y * ?r\<bar> \<le> 2 ^ 62"
  proof -
    have "\<bar>y\<bar> * ?r \<le> 2 ^ 31 * 2 ^ 31" using yhi r rpos by (intro mult_mono) auto
    then show ?thesis by (simp add: ayr)
  qed
  have yr_range: "2 powi (- 1000) \<le> \<bar>y * ?r\<bar>" "\<bar>y * ?r\<bar> \<le> 2 powi 1000"
    using yr_lo yr_hi powi2_numeral_le by linarith+
  have c_range: "2 powi (- 1000) \<le> \<bar>?c\<bar>" "\<bar>?c\<bar> \<le> 2 powi 1000"
  proof -
    have "(2::rat) powi (- 1000) \<le> 2 powi 0" by (simp add: powi2_le_iff)
    then show "2 powi (- 1000) \<le> \<bar>?c\<bar>" using c1 by simp
    have "(2::rat) ^ 31 \<le> 2 ^ 62" by simp
    then show "\<bar>?c\<bar> \<le> 2 powi 1000" using c2 powi2_numeral_le(2) by linarith
  qed
  \<comment> \<open>first rounding: the quotient\<close>
  have s0: "\<bar>y - y\<bar> \<le> 0 * \<bar>y\<bar>" by simp
  note s1 = fl_close [OF s0 _ y_range]
  show f1: "fl y = Inr q" unfolding q_def by (rule s1(1)) simp
  have e1: "\<bar>q - y\<bar> \<le> (1 / 2 ^ 52) * \<bar>y\<bar>" unfolding q_def using s1(2) by simp
  \<comment> \<open>second rounding: the product with the range\<close>
  have t1: "\<bar>q * ?r - y * ?r\<bar> \<le> (1 / 2 ^ 52) * \<bar>y * ?r\<bar>" by (rule close_mult [OF e1])
  note s2 = fl_close [OF t1 _ yr_range]
  show f2: "fl (q * ?r) = Inr mv" unfolding mv_def by (rule s2(1)) simp
  have e2: "\<bar>mv - y * ?r\<bar> \<le> (2 / 2 ^ 52) * \<bar>y * ?r\<bar>" unfolding mv_def using s2(2) by simp
  \<comment> \<open>third rounding: the quotient by the range\<close>
  have "\<bar>mv / ?r - y * ?r / ?r\<bar> \<le> (2 / 2 ^ 52) * \<bar>y * ?r / ?r\<bar>" by (rule close_div [OF e2])
  then have t2: "\<bar>mv / ?r - y\<bar> \<le> (2 / 2 ^ 52) * \<bar>y\<bar>" using rpos by simp
  note s3 = fl_close [OF t2 _ y_range]
  show f3: "fl (mv / ?r) = Inr b" unfolding b_def by (rule s3(1)) simp
  have e3: "\<bar>b - y\<bar> \<le> (3 / 2 ^ 52) * \<bar>y\<bar>" unfolding b_def using s3(2) by simp
  \<comment> \<open>fourth rounding: the product with the maximum ADC value\<close>
  have "\<bar>b * ?m - y * ?m\<bar> \<le> (3 / 2 ^ 52) * \<bar>y * ?m\<bar>" by (rule close_mult [OF e3])
  then have t3: "\<bar>b * ?m - ?c\<bar> \<le> (3 / 2 ^ 52) * \<bar>?c\<bar>" using mpos by (simp add: y_def)
  note s4 = fl_close [OF t3 _ c_range]
  show f4: "fl (b * ?m) = Inr c4" unfolding c4_def by (rule s4(1)) simp
  have e4: "\<bar>c4 - ?c\<bar> \<le> (4 / 2 ^ 52) * \<bar>?c\<bar>" unfolding c4_def using s4(2) by simp
  also have "\<dots> \<le> (4 / 2 ^ 52) * 2 ^ 31" using c2 by (intro mult_left_mono) auto
  also have "\<dots> < 1" by simp
  finally show "\<bar>c4 - ?c\<bar> < 1" .
qed

text \<open>
  Claim C5. For a session whose maximum ADC value \<open>M\<close> is positive, every ADC code of
  magnitude at most \<open>2 ^ 31\<close> (so every code between the limits of a device, which are 32-bit
  values) and every index of the range table with a positive entry of at most \<open>2 ^ 31\<close>
  millivolts: \<open>adc_to_mv\<close> returns a float, \<open>mv_to_adc\<close> of that float and the same range
  returns an integer, and the integer differs from the code by at most 1. Each of the four
  float operations rounds, and \<open>int\<close> truncates toward zero.
\<close>

theorem adc_mv_round_trip:
  assumes "max_adc_value s = Some M" "0 < M" "M \<le> 2 ^ 31" "\<bar>code\<bar> \<le> 2 ^ 31"
    and "py_index (RANGE_LIST K) channel_range = Inr R" "0 < R" "R \<le> 2 ^ 31"
  shows "\<exists>mv adc. adc_to_mv K s (PyInt code) channel_range = Inr mv \<and>
           mv_to_adc K s (PyFloat mv) channel_range = Inr adc \<and> \<bar>adc - code\<bar> \<le> 1"
proof -
  have bigM: "\<bar>M\<bar> \<le> 2 ^ 53" using assms(2,3) by simp
  have bigR: "\<bar>R\<bar> \<le> 2 ^ 53" using assms(6,7) by simp
  have bigC: "\<bar>code\<bar> \<le> 2 ^ 53" using assms(4) by simp
  note conv = fl_of_int [OF bigM] fl_of_int [OF bigR] fl_of_int [OF bigC]
  have nz: "(of_int M :: rat) \<noteq> 0" "(of_int R :: rat) \<noteq> 0" using assms(2,6) by simp_all
  show ?thesis
  proof (cases "code = 0")
    case True
    have "adc_to_mv K s (PyInt code) channel_range = Inr 0"
      using assms(1,5) conv nz True
      by (simp add: adc_to_mv_def bind_err_def to_float_def float_div_def)
    moreover have "mv_to_adc K s (PyFloat 0) channel_range = Inr 0"
      using assms(1,5) conv nz
      by (simp add: mv_to_adc_def bind_err_def to_float_def float_div_def py_truediv_def
          float_mul_def int_of_float_def)
    ultimately show ?thesis using True by auto
  next
    case False
    note v = adc_round_trip_values [OF assms(2,3) assms(6,7) False assms(4)]
    define mv where "mv = round53 (round53 (of_int code / of_int M) * of_int R)"
    define c4 where "c4 = round53 (round53 (mv / of_int R) * of_int M)"
    have "adc_to_mv K s (PyInt code) channel_range = Inr mv"
      using assms(1,5) conv nz v(1,2)
      by (simp add: adc_to_mv_def bind_err_def to_float_def float_div_def mv_def)
    moreover have "mv_to_adc K s (PyFloat mv) channel_range = Inr (int_of_float c4)"
      using assms(1,5) conv nz v(3,4)
      by (simp add: mv_to_adc_def bind_err_def to_float_def float_div_def py_truediv_def
          float_mul_def mv_def c4_def)
    moreover have "\<bar>int_of_float c4 - code\<bar> \<le> 1"
      using v(5) unfolding c4_def mv_def by (rule int_of_float_near)
    ultimately show ?thesis by blast
  qed
qed

theorem adc_mv_round_trip_witness:
  "max_adc_value example_session = Some 32512 \<and> (0::int) < 32512 \<and> (32512::int) \<le> 2 ^ 31 \<and>
   \<bar>127::int\<bar> \<le> 2 ^ 31 \<and> py_index (RANGE_LIST example_constants) 5 = Inr 500 \<and>
   (0::int) < 500 \<and> (500::int) \<le> 2 ^ 31 \<and>
   (\<exists>mv adc. adc_to_mv example_constants example_session (PyInt 127) 5 = Inr mv \<and>
      mv_to_adc example_constants example_session (PyFloat mv) 5 = Inr adc \<and> \<bar>adc - 127\<bar> \<le> 1)"
proof -
  have h: "max_adc_value example_session = Some 32512"
    "py_index (RANGE_LIST example_constants) 5 = Inr 500"
    by (simp_all add: example_session_def example_constants_def py_index_def)
  show ?thesis
    using adc_mv_round_trip [of example_session 32512 127 example_constants 5 500] h by simp
qed

text \<open>The tolerance is needed: with a maximum of 32512 and a range of 500 mV the code 43
  comes back as 42.\<close>

lemma adc_mv_round_trip_loses_one:
  "adc_to_mv example_constants example_session (PyInt 43) 5 =
     Inr (2978204724054677 / 4503599627370496) \<and>
   mv_to_adc example_constants example_session (PyFloat (2978204724054677 / 4503599627370496)) 5 =
     Inr 42"
  by code_simp

end
